theory Spec2Isabelle
  imports Main
begin

section \<open>SecureShare: the slot store and its request handlers\<close>

text \<open>
  A shallow embedding of the storage class \<^verbatim>\<open>SqliteStorage\<close> and of the request
  handlers of \<^verbatim>\<open>registerRoutes\<close> (both in \<^verbatim>\<open>server/routes.ts\<close>, the storage
  class in its second part). The three SQL tables are lists of
  rows, the uploads directory is the set of file names present in it. JavaScript
  numbers holding timestamps and counters are integers. What the handlers obtain from
  their surroundings is passed in: \<^verbatim>\<open>Date.now()\<close> as \<open>now\<close>, the draws of
  \<^verbatim>\<open>Math.random()\<close> as a list of doubles, \<^verbatim>\<open>argon2.hash\<close> and
  \<^verbatim>\<open>argon2.verify\<close> as functions.
\<close>

subsection \<open>Data model (shared/schema.ts)\<close>

record Slot =
  slot_id :: string
  passwordHash :: string
  createdAt :: int
  expiresAt :: int
  failedAttempts :: int

record FileData =
  file_id :: string
  file_slotId :: string
  filename :: string
  originalName :: string
  file_size :: int
  mimeType :: string
  uploadedAt :: int

record TextContent =
  text_slotId :: string
  content :: string

record PublicSlot =
  pub_id :: string
  pub_createdAt :: int
  pub_expiresAt :: int

record CreateSlotResponse =
  resp_slotId :: string
  resp_expiresAt :: int

record AccessSlotResponse =
  resp_slot :: PublicSlot
  resp_files :: "FileData list"
  resp_textContent :: "TextContent option"

text \<open>
  The state the storage class works on: the tables \<^verbatim>\<open>slots\<close>, \<^verbatim>\<open>files\<close>,
  \<^verbatim>\<open>text_contents\<close> of \<^verbatim>\<open>initDatabase\<close> and the files in \<^verbatim>\<open>UPLOADS_DIR\<close>.
\<close>

record state =
  slots :: "Slot list"
  files :: "FileData list"
  text_contents :: "TextContent list"
  uploads :: "string set"

text \<open>What a storage call can throw: a violated table constraint, or a missing file.\<close>

datatype fault = SQLITE_CONSTRAINT_PRIMARYKEY | SQLITE_CONSTRAINT_FOREIGNKEY | ENOENT

text \<open>
  A response is the status code with the \<^verbatim>\<open>error\<close> text of its JSON body, or one of
  the four success bodies.
\<close>

datatype response =
    Error nat string
  | Created CreateSlotResponse
  | Accessed AccessSlotResponse
  | Success
  | Download string string

subsection \<open>Number to string conversion\<close>

text \<open>
  \<^verbatim>\<open>id += n\<close> and the template literal of the 401 message turn an integral number
  into its decimal text.
\<close>

fun string_of_nat :: "nat \<Rightarrow> string" where
  "string_of_nat n =
     (if n < 10 then [''0123456789'' ! n]
      else string_of_nat (n div 10) @ [''0123456789'' ! (n mod 10)])"

declare string_of_nat.simps [simp del]

definition string_of_int :: "int \<Rightarrow> string" where
  "string_of_int i =
     (if i < 0 then CHR ''-'' # string_of_nat (nat (- i)) else string_of_nat (nat i))"

subsection \<open>SqliteStorage\<close>

text \<open>\<^verbatim>\<open>sanitizeSlot\<close>, used by the access route.\<close>

definition sanitizeSlot :: "Slot \<Rightarrow> PublicSlot" where
  "sanitizeSlot slot =
     \<lparr>pub_id = slot_id slot, pub_createdAt = createdAt slot, pub_expiresAt = expiresAt slot\<rparr>"

text \<open>
  The numbers of the id generator are doubles that are not negative. The pair \<open>(m, e)\<close>
  stands for the value \<^verbatim>\<open>m * 2^e\<close>, with \<open>m\<close> not negative. The product of such a
  double with a positive integer \<open>n\<close> is the exact product \<^verbatim>\<open>m * n * 2^e\<close> rounded to 53
  significant bits, to the nearest value and to the even one on a tie, as the
  multiplication of IEEE 754 does: \<open>round53\<close> keeps a product of at most 53 bits as it
  is, and else drops the \<open>s\<close> low bits that are too many. \<^verbatim>\<open>Math.floor\<close> of a
  double is a shift or an integer division.
\<close>

type_synonym double = "int \<times> int"

function bitlength :: "int \<Rightarrow> nat" where
  "bitlength n = (if n \<le> 0 then 0 else Suc (bitlength (n div 2)))"
  by pat_completeness auto
termination
  by (relation "measure nat") auto

declare bitlength.simps [simp del]

definition round53 :: "int \<Rightarrow> int \<Rightarrow> double" where
  "round53 M e =
     (if bitlength M \<le> 53 then (M, e)
      else (let s = bitlength M - 53;
                q = M div 2 ^ s;
                r = M mod 2 ^ s;
                half = 2 ^ (s - 1)
            in (if r > half \<or> (r = half \<and> odd q) then q + 1 else q, e + int s)))"

definition multiply :: "double \<Rightarrow> int \<Rightarrow> double" where
  "multiply d n = (case d of (m, e) \<Rightarrow> round53 (m * n) e)"

definition Math_floor :: "double \<Rightarrow> int" where
  "Math_floor d =
     (case d of (m, e) \<Rightarrow> if 0 \<le> e then m * 2 ^ nat e else m div 2 ^ nat (- e))"

text \<open>
  What \<^verbatim>\<open>Math.random()\<close> can return: a double (a significand below \<^verbatim>\<open>2^53\<close>, an
  exponent of at least -1074) from 0, included, to 1, excluded.
\<close>

definition random_value :: "double \<Rightarrow> bool" where
  "random_value d =
     (case d of (m, e) \<Rightarrow>
        0 \<le> m \<and> m < 2 ^ 53 \<and> - 1074 \<le> e \<and> (m = 0 \<or> (e < 0 \<and> m < 2 ^ nat (- e))))"

text \<open>
  \<^verbatim>\<open>generateSlotId\<close>: the first draw fixes the length,
  \<^verbatim>\<open>Math.floor(Math.random() * 3) + 6\<close>, each further draw one digit,
  \<^verbatim>\<open>Math.floor(Math.random() * 10)\<close>, appended as text. The list holds the values
  \<^verbatim>\<open>Math.random()\<close> returns, in order; the result is the id with the draws that are
  left, and \<open>None\<close> when the draws run out.
\<close>

fun generateDigits :: "nat \<Rightarrow> double list \<Rightarrow> string \<Rightarrow> (string \<times> double list) option" where
  "generateDigits 0 rs acc = Some (acc, rs)"
| "generateDigits (Suc n) [] acc = None"
| "generateDigits (Suc n) (r # rs) acc =
     generateDigits n rs (acc @ string_of_int (Math_floor (multiply r 10)))"

fun generateSlotId :: "double list \<Rightarrow> (string \<times> double list) option" where
  "generateSlotId [] = None"
| "generateSlotId (r # rs) = generateDigits (nat (Math_floor (multiply r 3) + 6)) rs []"

definition getSlot :: "state \<Rightarrow> string \<Rightarrow> Slot option" where
  "getSlot st slotId = find (\<lambda>s. slot_id s = slotId) (slots st)"

text \<open>
  \<^verbatim>\<open>verifySlotPassword\<close>. The parameter \<open>verify\<close> is \<^verbatim>\<open>argon2.verify\<close> inside its
  \<^verbatim>\<open>try\<close>: a call that throws counts as \<open>False\<close>.
\<close>

definition verifySlotPassword ::
  "(string \<Rightarrow> string \<Rightarrow> bool) \<Rightarrow> state \<Rightarrow> string \<Rightarrow> string \<Rightarrow> bool" where
  "verifySlotPassword verify st slotId password =
     (case getSlot st slotId of
        None \<Rightarrow> False
      | Some slot \<Rightarrow> verify (passwordHash slot) password)"

text \<open>
  \<^verbatim>\<open>incrementFailedAttempts\<close>: the UPDATE, then \<^verbatim>\<open>slot?.failedAttempts || 0\<close>.
\<close>

definition incrementFailedAttempts :: "state \<Rightarrow> string \<Rightarrow> int \<times> state" where
  "incrementFailedAttempts st slotId =
     (let st' = st\<lparr>slots :=
                  map (\<lambda>s. if slot_id s = slotId
                            then s\<lparr>failedAttempts := failedAttempts s + 1\<rparr> else s)
                      (slots st)\<rparr>
      in (case getSlot st' slotId of
            None \<Rightarrow> 0
          | Some slot \<Rightarrow> if failedAttempts slot = 0 then 0 else failedAttempts slot,
          st'))"

definition insertSlot :: "state \<Rightarrow> Slot \<Rightarrow> fault + state" where
  "insertSlot st slot =
     (if getSlot st (slot_id slot) \<noteq> None then Inl SQLITE_CONSTRAINT_PRIMARYKEY
      else Inr (st\<lparr>slots := slots st @ [slot]\<rparr>))"

definition getFiles :: "state \<Rightarrow> string \<Rightarrow> FileData list" where
  "getFiles st slotId = filter (\<lambda>f. file_slotId f = slotId) (files st)"

definition getFile :: "state \<Rightarrow> string \<Rightarrow> FileData option" where
  "getFile st fileId = find (\<lambda>f. file_id f = fileId) (files st)"

definition addFile :: "state \<Rightarrow> FileData \<Rightarrow> fault + state" where
  "addFile st file =
     (if getFile st (file_id file) \<noteq> None then Inl SQLITE_CONSTRAINT_PRIMARYKEY
      else if getSlot st (file_slotId file) = None then Inl SQLITE_CONSTRAINT_FOREIGNKEY
      else Inr (st\<lparr>files := files st @ [file]\<rparr>))"

definition getTextContent :: "state \<Rightarrow> string \<Rightarrow> TextContent option" where
  "getTextContent st slotId = find (\<lambda>t. text_slotId t = slotId) (text_contents st)"

text \<open>\<^verbatim>\<open>addTextContent\<close>: INSERT OR REPLACE drops the row with the same key first.\<close>

definition addTextContent :: "state \<Rightarrow> TextContent \<Rightarrow> fault + state" where
  "addTextContent st textContent =
     (if getSlot st (text_slotId textContent) = None then Inl SQLITE_CONSTRAINT_FOREIGNKEY
      else Inr (st\<lparr>text_contents :=
                  filter (\<lambda>t. text_slotId t \<noteq> text_slotId textContent) (text_contents st)
                  @ [textContent]\<rparr>))"

text \<open>
  \<^verbatim>\<open>fs.unlinkSync\<close> throws when the file is not there; the loop of \<^verbatim>\<open>deleteSlot\<close>
  calls it under \<^verbatim>\<open>fs.existsSync\<close>. A fault ends the loop with the directory as it is
  at that moment.
\<close>

definition unlinkSync :: "string set \<Rightarrow> string \<Rightarrow> fault + string set" where
  "unlinkSync dir name = (if name \<in> dir then Inr (dir - {name}) else Inl ENOENT)"

fun unlinkFiles :: "string set \<Rightarrow> FileData list \<Rightarrow> fault option \<times> string set" where
  "unlinkFiles dir [] = (None, dir)"
| "unlinkFiles dir (file # rest) =
     (if filename file \<in> dir
      then (case unlinkSync dir (filename file) of
              Inl e \<Rightarrow> (Some e, dir)
            | Inr dir' \<Rightarrow> unlinkFiles dir' rest)
      else unlinkFiles dir rest)"

text \<open>
  \<^verbatim>\<open>DELETE FROM slots WHERE id = ?\<close>: the rows of \<^verbatim>\<open>files\<close> and
  \<^verbatim>\<open>text_contents\<close> that reference the slot go with it (ON DELETE CASCADE).
\<close>

definition deleteSlotRow :: "state \<Rightarrow> string \<Rightarrow> state" where
  "deleteSlotRow st slotId =
     st\<lparr>slots := filter (\<lambda>s. slot_id s \<noteq> slotId) (slots st),
        files := filter (\<lambda>f. file_slotId f \<noteq> slotId) (files st),
        text_contents := filter (\<lambda>t. text_slotId t \<noteq> slotId) (text_contents st)\<rparr>"

definition deleteSlot :: "state \<Rightarrow> string \<Rightarrow> fault option \<times> state" where
  "deleteSlot st slotId =
     (case unlinkFiles (uploads st) (getFiles st slotId) of
        (Some e, dir) \<Rightarrow> (Some e, st\<lparr>uploads := dir\<rparr>)
      | (None, dir) \<Rightarrow> (None, deleteSlotRow (st\<lparr>uploads := dir\<rparr>) slotId))"

definition getExpiredSlots :: "state \<Rightarrow> int \<Rightarrow> Slot list" where
  "getExpiredSlots st now = filter (\<lambda>s. expiresAt s \<le> now) (slots st)"

fun deleteSlots :: "state \<Rightarrow> Slot list \<Rightarrow> fault option \<times> state" where
  "deleteSlots st [] = (None, st)"
| "deleteSlots st (slot # rest) =
     (case deleteSlot st (slot_id slot) of
        (Some e, st') \<Rightarrow> (Some e, st')
      | (None, st') \<Rightarrow> deleteSlots st' rest)"

definition deleteExpiredSlots :: "state \<Rightarrow> int \<Rightarrow> fault option \<times> state" where
  "deleteExpiredSlots st now = deleteSlots st (getExpiredSlots st now)"

text \<open>
  \<^verbatim>\<open>createSlot\<close>. The loop draws a new id while the one at hand is that of a row of
  \<^verbatim>\<open>slots\<close>; every round uses up at least one draw, and the loop has no result when
  the draws are used up. \<open>hash salt password\<close> is \<^verbatim>\<open>argon2.hash(password)\<close> with
  the salt it picks.
\<close>

function whileTaken :: "state \<Rightarrow> string \<Rightarrow> double list \<Rightarrow> (string \<times> double list) option" where
  "whileTaken st slotId rs =
     (if getSlot st slotId \<noteq> None
      then (case generateSlotId rs of
              None \<Rightarrow> None
            | Some (slotId', rs') \<Rightarrow> whileTaken st slotId' rs')
      else Some (slotId, rs))"
  by pat_completeness auto
termination
proof (relation "measure (\<lambda>(st, slotId, rs). length rs)")
  show "wf (measure (\<lambda>(st :: state, slotId :: string, rs :: double list). length rs))"
    by simp
next
  fix st :: state and slotId :: string and rs :: "double list" and x2 x y
  assume gen: "generateSlotId rs = Some x2" "(x, y) = x2"
  have digits: "generateDigits n ds acc = Some (i, ds') \<Longrightarrow> length ds' \<le> length ds"
    for n ds acc i ds'
    by (induction n ds acc rule: generateDigits.induct) auto
  from gen have "length y < length rs"
    by (cases rs) (auto dest: digits)
  then show "((st, x, y), (st, slotId, rs)) \<in> measure (\<lambda>(st, slotId, rs). length rs)"
    by simp
qed

declare whileTaken.simps [simp del]

definition createSlot ::
  "(string \<Rightarrow> string \<Rightarrow> string) \<Rightarrow> state \<Rightarrow> string \<Rightarrow> double list \<Rightarrow> string \<Rightarrow> int
     \<Rightarrow> ((fault + Slot) \<times> state) option" where
  "createSlot hash st password rs salt now =
     (case generateSlotId rs of
        None \<Rightarrow> None
      | Some (slotId0, rs0) \<Rightarrow>
          (case whileTaken st slotId0 rs0 of
             None \<Rightarrow> None
           | Some (slotId, rs1) \<Rightarrow>
               (let passwordHash = hash salt password;
                    createdAt = now;
                    expiresAt = createdAt + 24 * 60 * 60 * 1000;
                    slot = \<lparr>slot_id = slotId, passwordHash = passwordHash,
                            createdAt = createdAt, expiresAt = expiresAt,
                            failedAttempts = 0\<rparr>
                in (case insertSlot st slot of
                      Inl e \<Rightarrow> Some (Inl e, st)
                    | Inr st' \<Rightarrow> Some (Inr slot, st')))))"

subsection \<open>Request handlers (registerRoutes)\<close>

text \<open>
  Each handler is the body of the \<^verbatim>\<open>async (req, res)\<close> function of its route: it
  returns the response and the state it leaves. A fault thrown by the storage is caught
  by the handler's \<^verbatim>\<open>catch\<close> and answered with status 500.
\<close>

text \<open>\<^verbatim>\<open>POST /api/slot\<close>\<close>

definition createRoute ::
  "(string \<Rightarrow> string \<Rightarrow> string) \<Rightarrow> state \<Rightarrow> string \<Rightarrow> double list \<Rightarrow> string \<Rightarrow> int
     \<Rightarrow> (response \<times> state) option" where
  "createRoute hash st password rs salt now =
     (if length password < 4
      then Some (Error 400 ''Password must be at least 4 characters'', st)
      else (case createSlot hash st password rs salt now of
              None \<Rightarrow> None
            | Some (Inl e, st') \<Rightarrow> Some (Error 500 ''Failed to create slot'', st')
            | Some (Inr slot, st') \<Rightarrow>
                Some (Created \<lparr>resp_slotId = slot_id slot,
                               resp_expiresAt = expiresAt slot\<rparr>, st')))"

text \<open>
  \<^verbatim>\<open>POST /api/upload/:slotId\<close>. An element of \<^verbatim>\<open>req.files\<close> comes with the record
  id \<^verbatim>\<open>randomBytes(16).toString("hex")\<close> and the \<^verbatim>\<open>Date.now()\<close> the loop gives it;
  \<open>fileRecord\<close> is the object the loop passes to \<^verbatim>\<open>addFile\<close>.
  The upload middleware has written the files to the uploads directory before the
  handler runs.
\<close>

record UploadedFile =
  new_id :: string
  multer_filename :: string
  multer_originalname :: string
  multer_size :: int
  multer_mimetype :: string
  new_uploadedAt :: int

definition fileRecord :: "string \<Rightarrow> UploadedFile \<Rightarrow> FileData" where
  "fileRecord slotId file =
     \<lparr>file_id = new_id file, file_slotId = slotId, filename = multer_filename file,
      originalName = multer_originalname file, file_size = multer_size file,
      mimeType = multer_mimetype file, uploadedAt = new_uploadedAt file\<rparr>"

fun addFiles :: "state \<Rightarrow> string \<Rightarrow> UploadedFile list \<Rightarrow> fault option \<times> state" where
  "addFiles st slotId [] = (None, st)"
| "addFiles st slotId (file # rest) =
     (case addFile st (fileRecord slotId file) of
        Inl e \<Rightarrow> (Some e, st)
      | Inr st' \<Rightarrow> addFiles st' slotId rest)"

text \<open>
  \<^verbatim>\<open>text.trim()\<close> on a string of ASCII characters: tab, line feed, vertical tab, form
  feed, carriage return and space are cut off both ends.
\<close>

definition whitespace :: "char \<Rightarrow> bool" where
  "whitespace c = (c \<in> set [CHR 0x09, CHR 0x0A, CHR 0x0B, CHR 0x0C, CHR 0x0D, CHR 0x20])"

definition trim :: "string \<Rightarrow> string" where
  "trim s = rev (dropWhile whitespace (rev (dropWhile whitespace s)))"

definition uploadRoute ::
  "(string \<Rightarrow> string \<Rightarrow> bool) \<Rightarrow> state \<Rightarrow> string \<Rightarrow> string \<Rightarrow> string option
     \<Rightarrow> UploadedFile list \<Rightarrow> int \<Rightarrow> response \<times> state" where
  "uploadRoute verify st slotId password text uploaded now =
     (case getSlot st slotId of
        None \<Rightarrow> (Error 404 ''Slot not found'', st)
      | Some slot \<Rightarrow>
          if now > expiresAt slot
          then (case deleteSlot st slotId of
                  (Some e, st') \<Rightarrow> (Error 500 ''Failed to upload files'', st')
                | (None, st') \<Rightarrow> (Error 410 ''Slot has expired'', st'))
          else if \<not> verifySlotPassword verify st slotId password
          then (Error 401 ''Invalid password'', st)
          else (case addFiles st slotId uploaded of
                  (Some e, st1) \<Rightarrow> (Error 500 ''Failed to upload files'', st1)
                | (None, st1) \<Rightarrow>
                    (case text of
                       None \<Rightarrow> (Success, st1)
                     | Some t \<Rightarrow>
                         if t \<noteq> [] \<and> trim t \<noteq> []
                         then (case addTextContent st1
                                      \<lparr>text_slotId = slotId, content = t\<rparr> of
                                 Inl e \<Rightarrow> (Error 500 ''Failed to upload files'', st1)
                               | Inr st2 \<Rightarrow> (Success, st2))
                         else (Success, st1))))"

text \<open>\<^verbatim>\<open>POST /api/slot/:slotId\<close>\<close>

definition accessRoute ::
  "(string \<Rightarrow> string \<Rightarrow> bool) \<Rightarrow> state \<Rightarrow> string \<Rightarrow> string \<Rightarrow> int \<Rightarrow> response \<times> state" where
  "accessRoute verify st slotId password now =
     (case getSlot st slotId of
        None \<Rightarrow> (Error 404 ''Slot not found'', st)
      | Some slot \<Rightarrow>
          if now > expiresAt slot
          then (case deleteSlot st slotId of
                  (Some e, st') \<Rightarrow> (Error 500 ''Failed to access slot'', st')
                | (None, st') \<Rightarrow> (Error 410 ''Slot has expired'', st'))
          else if \<not> verifySlotPassword verify st slotId password
          then (case incrementFailedAttempts st slotId of
                  (failed, st1) \<Rightarrow>
                    (let remainingAttempts = 3 - failed
                     in if remainingAttempts \<le> 0
                        then (case deleteSlot st1 slotId of
                                (Some e, st2) \<Rightarrow> (Error 500 ''Failed to access slot'', st2)
                              | (None, st2) \<Rightarrow>
                                  (Error 403 ''Too many failed attempts. Slot deleted.'', st2))
                        else (Error 401 (''Invalid password. ''
                                          @ string_of_int remainingAttempts
                                          @ '' attempts remaining.''), st1)))
          else (Accessed \<lparr>resp_slot = sanitizeSlot slot,
                          resp_files = getFiles st slotId,
                          resp_textContent = getTextContent st slotId\<rparr>, st))"

text \<open>\<^verbatim>\<open>GET /api/download/:slotId/:fileId\<close>\<close>

definition downloadRoute ::
  "(string \<Rightarrow> string \<Rightarrow> bool) \<Rightarrow> state \<Rightarrow> string \<Rightarrow> string \<Rightarrow> string \<Rightarrow> int
     \<Rightarrow> response \<times> state" where
  "downloadRoute verify st slotId fileId password now =
     (case getSlot st slotId of
        None \<Rightarrow> (Error 404 ''Slot not found'', st)
      | Some slot \<Rightarrow>
          if now > expiresAt slot
          then (case deleteSlot st slotId of
                  (Some e, st') \<Rightarrow> (Error 500 ''Failed to download file'', st')
                | (None, st') \<Rightarrow> (Error 410 ''Slot has expired'', st'))
          else if \<not> verifySlotPassword verify st slotId password
          then (Error 401 ''Invalid password'', st)
          else (case getFile st fileId of
                  None \<Rightarrow> (Error 404 ''File not found'', st)
                | Some file \<Rightarrow>
                    if file_slotId file \<noteq> slotId then (Error 404 ''File not found'', st)
                    else if filename file \<notin> uploads st
                    then (Error 404 ''File not found on disk'', st)
                    else (Download (filename file) (originalName file), st)))"

text \<open>\<^verbatim>\<open>DELETE /api/slot/:slotId\<close>\<close>

definition deleteRoute ::
  "(string \<Rightarrow> string \<Rightarrow> bool) \<Rightarrow> state \<Rightarrow> string \<Rightarrow> string \<Rightarrow> int \<Rightarrow> response \<times> state" where
  "deleteRoute verify st slotId password now =
     (case getSlot st slotId of
        None \<Rightarrow> (Error 404 ''Slot not found'', st)
      | Some slot \<Rightarrow>
          if now > expiresAt slot
          then (case deleteSlot st slotId of
                  (Some e, st') \<Rightarrow> (Error 500 ''Failed to delete slot'', st')
                | (None, st') \<Rightarrow> (Error 410 ''Slot has expired'', st'))
          else if \<not> verifySlotPassword verify st slotId password
          then (Error 401 ''Invalid password'', st)
          else (case deleteSlot st slotId of
                  (Some e, st') \<Rightarrow> (Error 500 ''Failed to delete slot'', st')
                | (None, st') \<Rightarrow> (Success, st')))"

text \<open>
  The hourly job of \<^verbatim>\<open>cron.schedule\<close>: it runs \<^verbatim>\<open>deleteExpiredSlots\<close> and logs a
  fault instead of passing it on.
\<close>

definition cleanupJob :: "state \<Rightarrow> int \<Rightarrow> state" where
  "cleanupJob st now = snd (deleteExpiredSlots st now)"

text \<open>Everything that can act on the state, and the state it leaves.\<close>

datatype request =
    CreateReq string "double list" string int
  | UploadReq string string "string option" "UploadedFile list" int
  | AccessReq string string int
  | DownloadReq string string string int
  | DeleteReq string string int
  | CleanupJob int

fun step ::
  "(string \<Rightarrow> string \<Rightarrow> string) \<Rightarrow> (string \<Rightarrow> string \<Rightarrow> bool) \<Rightarrow> state \<Rightarrow> request
     \<Rightarrow> state option" where
  "step hash verify st (CreateReq password rs salt now) =
     map_option snd (createRoute hash st password rs salt now)"
| "step hash verify st (UploadReq slotId password text uploaded now) =
     Some (snd (uploadRoute verify st slotId password text uploaded now))"
| "step hash verify st (AccessReq slotId password now) =
     Some (snd (accessRoute verify st slotId password now))"
| "step hash verify st (DownloadReq slotId fileId password now) =
     Some (snd (downloadRoute verify st slotId fileId password now))"
| "step hash verify st (DeleteReq slotId password now) =
     Some (snd (deleteRoute verify st slotId password now))"
| "step hash verify st (CleanupJob now) = Some (cleanupJob st now)"

text \<open>
  A sequence of access requests \<open>(password, now)\<close> against one slot id, each on the
  state the one before it left; the responses come back in order.
\<close>

fun accessSeq ::
  "(string \<Rightarrow> string \<Rightarrow> bool) \<Rightarrow> state \<Rightarrow> string \<Rightarrow> (string \<times> int) list
     \<Rightarrow> response list \<times> state" where
  "accessSeq verify st slotId [] = ([], st)"
| "accessSeq verify st slotId ((password, now) # rest) =
     (case accessRoute verify st slotId password now of
        (r, st') \<Rightarrow>
          (case accessSeq verify st' slotId rest of
             (rs, st'') \<Rightarrow> (r # rs, st'')))"

text \<open>The characters a slot id is to be made of.\<close>

definition decimal_digit :: "char \<Rightarrow> bool" where
  "decimal_digit c = (c \<in> set ''0123456789'')"

subsection \<open>A small store for the examples\<close>

text \<open>
  A verifier and a hash function that stand in for argon2, and a state with one slot
  (password "abcd", created at 1000, expiring at 86401000) that owns one file, one text
  and one blob.
\<close>

definition demo_verify :: "string \<Rightarrow> string \<Rightarrow> bool" where
  "demo_verify h password = (h = ''h:'' @ password)"

definition demo_hash :: "string \<Rightarrow> string \<Rightarrow> string" where
  "demo_hash salt password = ''h:'' @ password"

definition demo_slot :: Slot where
  "demo_slot = \<lparr>slot_id = ''123456'', passwordHash = ''h:abcd'', createdAt = 1000,
                 expiresAt = 86401000, failedAttempts = 0\<rparr>"

definition demo_file :: FileData where
  "demo_file = \<lparr>file_id = ''f1'', file_slotId = ''123456'', filename = ''1-aa.txt'',
                 originalName = ''a.txt'', file_size = 3, mimeType = ''text/plain'',
                 uploadedAt = 2000\<rparr>"

definition demo_text :: TextContent where
  "demo_text = \<lparr>text_slotId = ''123456'', content = ''hello''\<rparr>"

definition demo_state :: state where
  "demo_state = \<lparr>slots = [demo_slot], files = [demo_file], text_contents = [demo_text],
                  uploads = {''1-aa.txt''}\<rparr>"

text \<open>A file as it arrives at the upload handler.\<close>

definition demo_upload :: UploadedFile where
  "demo_upload = \<lparr>new_id = ''f9'', multer_filename = ''9-new.txt'',
                   multer_originalname = ''new.txt'', multer_size = 5,
                   multer_mimetype = ''text/plain'', new_uploadedAt = 86401000\<rparr>"

text \<open>The state with no rows and no files.\<close>

definition empty_state :: state where
  "empty_state = \<lparr>slots = [], files = [], text_contents = [], uploads = {}\<rparr>"

text \<open>The example state with the counter of its slot at \<open>n\<close>.\<close>

definition demo_state_failed :: "int \<Rightarrow> state" where
  "demo_state_failed n = demo_state\<lparr>slots := [demo_slot\<lparr>failedAttempts := n\<rparr>]\<rparr>"

text \<open>
  The slot with three file records. The blob of the third is not in the uploads
  directory; the directory also holds a file that no record names, and which is all
  that is left after the slot is deleted.
\<close>

definition demo_three_files :: state where
  "demo_three_files =
     \<lparr>slots = [demo_slot],
      files = [demo_file,
               demo_file\<lparr>file_id := ''f2'', filename := ''2-bb.png''\<rparr>,
               demo_file\<lparr>file_id := ''f3'', filename := ''3-cc.pdf''\<rparr>],
      text_contents = [demo_text],
      uploads = {''1-aa.txt'', ''2-bb.png'', ''9-zz.bin''}\<rparr>"

definition demo_orphan_only :: state where
  "demo_orphan_only = empty_state\<lparr>uploads := {''9-zz.bin''}\<rparr>"

text \<open>
  Draws that give the id "123456", which is taken in the example state, and then
  "70000009"; and the slot \<open>createSlot\<close> makes from it at time 7000 for the password
  "wxyz". The draws are 0, 0.125, 0.25, 0.375, 0.4375, 0.5, 0.625, then twice the
  double next to 0.7 (its products with 3 and with 10 are rounded; the second becomes
  7), six times 0, and the largest double below 1.
\<close>

definition demo_draws_rest :: "double list" where
  "demo_draws_rest = [(6305039478318694, - 53), (6305039478318694, - 53),
                      (0, 0), (0, 0), (0, 0), (0, 0), (0, 0), (0, 0),
                      (9007199254740991, - 53)]"

definition demo_draws :: "double list" where
  "demo_draws = [(0, 0), (1, - 3), (1, - 2), (3, - 3), (7, - 4), (1, - 1), (5, - 3)]
                @ demo_draws_rest"

definition demo_created :: Slot where
  "demo_created = \<lparr>slot_id = ''70000009'', passwordHash = ''h:wxyz'', createdAt = 7000,
                    expiresAt = 86407000, failedAttempts = 0\<rparr>"

section \<open>Properties\<close>

subsection \<open>Cascading deletion\<close>

lemma unlinkFiles_eq: "unlinkFiles dir fs = (None, dir - filename ` set fs)"
  by (induction fs arbitrary: dir) (auto simp: unlinkSync_def)

lemma deleteSlot_eq:
  "deleteSlot st i =
     (None, deleteSlotRow (st\<lparr>uploads := uploads st - filename ` set (getFiles st i)\<rparr>) i)"
  by (simp add: deleteSlot_def unlinkFiles_eq)

lemma deleteSlot_pair: "deleteSlot st i = (None, snd (deleteSlot st i))"
  by (simp add: deleteSlot_eq)

lemma find_filter_neq: "find (\<lambda>s. f s = i) (filter (\<lambda>s. f s \<noteq> i) xs) = None"
  by (induction xs) auto

lemma find_filter_other:
  "j \<noteq> i \<Longrightarrow> find (\<lambda>s. f s = j) (filter (\<lambda>s. f s \<noteq> i) xs) = find (\<lambda>s. f s = j) xs"
  by (induction xs) auto

lemma getSlot_deleteSlot_same: "getSlot (snd (deleteSlot st i)) i = None"
  by (simp add: deleteSlot_eq deleteSlotRow_def getSlot_def find_filter_neq)

lemma getSlot_deleteSlot_other:
  "j \<noteq> i \<Longrightarrow> getSlot (snd (deleteSlot st i)) j = getSlot st j"
  by (simp add: deleteSlot_eq deleteSlotRow_def getSlot_def find_filter_other)

lemma getFiles_deleteSlot_same: "getFiles (snd (deleteSlot st i)) i = []"
  by (simp add: deleteSlot_eq deleteSlotRow_def getFiles_def)

lemma getTextContent_deleteSlot_same: "getTextContent (snd (deleteSlot st i)) i = None"
  by (simp add: deleteSlot_eq deleteSlotRow_def getTextContent_def find_filter_neq)

lemma uploads_deleteSlot:
  "uploads (snd (deleteSlot st i)) = uploads st - filename ` set (getFiles st i)"
  by (simp add: deleteSlot_eq deleteSlotRow_def)

lemma demo_deleted: "snd (deleteSlot demo_state ''123456'') = empty_state"
  by (simp add: deleteSlot_eq deleteSlotRow_def getFiles_def demo_state_def demo_slot_def
      demo_file_def demo_text_def empty_state_def)

subsection \<open>Lazy expiration\<close>

text \<open>
  C3. On each of the four request paths (read, upload, download, explicit delete), a
  slot that is found and whose \<open>expiresAt\<close> is earlier than \<open>now\<close> is deleted by
  \<open>deleteSlot\<close> and the answer is 410 "Slot has expired", whatever the password and
  whether or not it verifies. The state left behind is exactly the one \<open>deleteSlot\<close>
  leaves: no row of the slot, no file record, no text record and none of its files in
  the uploads directory; nothing is read or written after the check.
\<close>

theorem expired_on_every_path:
  assumes "getSlot st slotId = Some slot" and "now > expiresAt slot"
  shows "accessRoute verify st slotId password now
           = (Error 410 ''Slot has expired'', snd (deleteSlot st slotId))
       \<and> uploadRoute verify st slotId password text uploaded now
           = (Error 410 ''Slot has expired'', snd (deleteSlot st slotId))
       \<and> downloadRoute verify st slotId fileId password now
           = (Error 410 ''Slot has expired'', snd (deleteSlot st slotId))
       \<and> deleteRoute verify st slotId password now
           = (Error 410 ''Slot has expired'', snd (deleteSlot st slotId))
       \<and> getSlot (snd (deleteSlot st slotId)) slotId = None
       \<and> getFiles (snd (deleteSlot st slotId)) slotId = []
       \<and> getTextContent (snd (deleteSlot st slotId)) slotId = None
       \<and> filename ` set (getFiles st slotId) \<inter> uploads (snd (deleteSlot st slotId)) = {}"
proof -
  have "accessRoute verify st slotId password now
           = (Error 410 ''Slot has expired'', snd (deleteSlot st slotId))"
    using assms by (simp add: accessRoute_def deleteSlot_eq)
  moreover have "uploadRoute verify st slotId password text uploaded now
           = (Error 410 ''Slot has expired'', snd (deleteSlot st slotId))"
    using assms by (simp add: uploadRoute_def deleteSlot_eq)
  moreover have "downloadRoute verify st slotId fileId password now
           = (Error 410 ''Slot has expired'', snd (deleteSlot st slotId))"
    using assms by (simp add: downloadRoute_def deleteSlot_eq)
  moreover have "deleteRoute verify st slotId password now
           = (Error 410 ''Slot has expired'', snd (deleteSlot st slotId))"
    using assms by (simp add: deleteRoute_def deleteSlot_eq)
  moreover have "filename ` set (getFiles st slotId) \<inter> uploads (snd (deleteSlot st slotId)) = {}"
    by (auto simp: uploads_deleteSlot)
  ultimately show ?thesis
    by (simp add: getSlot_deleteSlot_same getFiles_deleteSlot_same
        getTextContent_deleteSlot_same)
qed

theorem expired_on_every_path_witness:
  "getSlot demo_state ''123456'' = Some demo_slot \<and> 86401001 > expiresAt demo_slot
   \<and> verifySlotPassword demo_verify demo_state ''123456'' ''abcd''
   \<and> accessRoute demo_verify demo_state ''123456'' ''abcd'' 86401001
        = (Error 410 ''Slot has expired'', empty_state)
   \<and> uploadRoute demo_verify demo_state ''123456'' ''abcd'' (Some ''x'') [] 86401001
        = (Error 410 ''Slot has expired'', empty_state)
   \<and> downloadRoute demo_verify demo_state ''123456'' ''f1'' ''abcd'' 86401001
        = (Error 410 ''Slot has expired'', empty_state)
   \<and> deleteRoute demo_verify demo_state ''123456'' ''abcd'' 86401001
        = (Error 410 ''Slot has expired'', empty_state)"
proof -
  have found: "getSlot demo_state ''123456'' = Some demo_slot"
    by (simp add: getSlot_def demo_state_def demo_slot_def)
  have late: "86401001 > expiresAt demo_slot"
    by (simp add: demo_slot_def)
  have valid: "verifySlotPassword demo_verify demo_state ''123456'' ''abcd''"
    by (simp add: verifySlotPassword_def found) (simp add: demo_verify_def demo_slot_def)
  from expired_on_every_path [OF found late, of demo_verify "''abcd''" "Some ''x''" "[]" "''f1''"]
  show ?thesis
    using found late valid by (simp add: demo_deleted)
qed

lemma accessRoute_not_found:
  "getSlot st i = None \<Longrightarrow> accessRoute verify st i pw now = (Error 404 ''Slot not found'', st)"
  by (simp add: accessRoute_def)

lemma accessSeq_not_found:
  "getSlot st i = None \<Longrightarrow>
   accessSeq verify st i reqs = (replicate (length reqs) (Error 404 ''Slot not found''), st)"
  by (induction reqs) (auto simp: accessRoute_not_found)

lemma find_map_update:
  "find (\<lambda>s. slot_id s = i) (map (\<lambda>s. if slot_id s = i then g s else s) xs)
     = map_option g (find (\<lambda>s. slot_id s = i) xs)"
  if "\<And>s. slot_id (g s) = slot_id s"
  using that by (induction xs) auto

lemma find_map_update_other:
  "j \<noteq> i \<Longrightarrow> find (\<lambda>s. slot_id s = j) (map (\<lambda>s. if slot_id s = i then g s else s) xs)
     = find (\<lambda>s. slot_id s = j) xs"
  if "\<And>s. slot_id (g s) = slot_id s"
  using that by (induction xs) auto

lemma getSlot_increment_same:
  "getSlot (snd (incrementFailedAttempts st i)) i
     = map_option (\<lambda>s. s\<lparr>failedAttempts := failedAttempts s + 1\<rparr>) (getSlot st i)"
  by (simp add: incrementFailedAttempts_def getSlot_def find_map_update)

lemma getSlot_increment_other:
  "j \<noteq> i \<Longrightarrow> getSlot (snd (incrementFailedAttempts st i)) j = getSlot st j"
  by (simp add: incrementFailedAttempts_def getSlot_def find_map_update_other)

lemma snd_increment:
  "snd (incrementFailedAttempts st i)
     = st\<lparr>slots := map (\<lambda>s. if slot_id s = i
                              then s\<lparr>failedAttempts := failedAttempts s + 1\<rparr> else s)
                        (slots st)\<rparr>"
  by (simp add: incrementFailedAttempts_def Let_def)

lemma increment_eq:
  assumes "getSlot st i = Some slot"
  shows "incrementFailedAttempts st i
           = (failedAttempts slot + 1,
              st\<lparr>slots := map (\<lambda>s. if slot_id s = i
                              then s\<lparr>failedAttempts := failedAttempts s + 1\<rparr> else s)
                        (slots st)\<rparr>)"
proof -
  have "getSlot (snd (incrementFailedAttempts st i)) i
          = Some (slot\<lparr>failedAttempts := failedAttempts slot + 1\<rparr>)"
    using assms by (simp add: getSlot_increment_same)
  then have "getSlot (st\<lparr>slots := map (\<lambda>s. if slot_id s = i
                              then s\<lparr>failedAttempts := failedAttempts s + 1\<rparr> else s)
                        (slots st)\<rparr>) i
          = Some (slot\<lparr>failedAttempts := failedAttempts slot + 1\<rparr>)"
    by (simp only: snd_increment)
  then show ?thesis
    by (simp add: incrementFailedAttempts_def Let_def)
qed

text \<open>
  C7. An access to a slot whose \<open>expiresAt\<close> is in the past answers 410 "Slot has
  expired" and deletes the slot; every access to the same id that follows, with any
  password at any time, answers 404 "Slot not found" and changes nothing. So the
  expired answer is given exactly once.
\<close>

theorem expired_once_then_not_found:
  assumes "getSlot st slotId = Some slot" and "now > expiresAt slot"
  shows "accessSeq verify st slotId ((password, now) # later)
           = (Error 410 ''Slot has expired''
                # replicate (length later) (Error 404 ''Slot not found''),
              snd (deleteSlot st slotId))
       \<and> getSlot (snd (deleteSlot st slotId)) slotId = None"
proof -
  have first: "accessRoute verify st slotId password now
                 = (Error 410 ''Slot has expired'', snd (deleteSlot st slotId))"
    using assms by (simp add: accessRoute_def deleteSlot_eq)
  have gone: "getSlot (snd (deleteSlot st slotId)) slotId = None"
    by (rule getSlot_deleteSlot_same)
  show ?thesis
    by (simp add: first gone accessSeq_not_found)
qed

theorem expired_once_then_not_found_witness:
  "getSlot demo_state ''123456'' = Some demo_slot \<and> 86401001 > expiresAt demo_slot
   \<and> accessSeq demo_verify demo_state ''123456''
         [(''abcd'', 86401001), (''abcd'', 86401002), (''zzzz'', 5)]
        = ([Error 410 ''Slot has expired'', Error 404 ''Slot not found'',
            Error 404 ''Slot not found''], empty_state)"
proof -
  have found: "getSlot demo_state ''123456'' = Some demo_slot"
    by (simp add: getSlot_def demo_state_def demo_slot_def)
  have late: "86401001 > expiresAt demo_slot"
    by (simp add: demo_slot_def)
  from expired_once_then_not_found [OF found late,
      of demo_verify "''abcd''" "[(''abcd'', 86401002), (''zzzz'', 5)]"]
  show ?thesis
    using found late by (simp add: demo_deleted)
qed

subsection \<open>Lockout\<close>

lemma demo_failed_found:
  "getSlot (demo_state_failed n) ''123456'' = Some (demo_slot\<lparr>failedAttempts := n\<rparr>)"
  by (simp add: getSlot_def demo_state_failed_def demo_slot_def)

lemma demo_failed_increment:
  "snd (incrementFailedAttempts (demo_state_failed n) ''123456'') = demo_state_failed (n + 1)"
  by (simp add: snd_increment demo_state_failed_def demo_state_def demo_slot_def)

lemma demo_failed_deleted:
  "snd (deleteSlot (demo_state_failed n) ''123456'') = empty_state"
  by (simp add: deleteSlot_eq deleteSlotRow_def getFiles_def demo_state_failed_def
      demo_state_def demo_slot_def demo_file_def demo_text_def empty_state_def)

lemma string_of_int_digits: "string_of_int 2 = ''2''" "string_of_int 1 = ''1''"
  by (simp_all add: string_of_int_def string_of_nat.simps)

text \<open>
  C1. On the access path, a wrong password for a slot that is found and not expired
  raises \<open>failedAttempts\<close> by one. While the new count is below 3 the answer is 401
  and the slot stays, with the new count. When the new count is 3 (or more) the slot is
  deleted by \<open>deleteSlot\<close> and the answer is 403 "Too many failed attempts. Slot
  deleted."; from then on every access to that id, also with the right password,
  answers 404 "Slot not found".
\<close>

theorem failed_access_counts_and_locks:
  assumes "getSlot st slotId = Some slot"
    and "\<not> now > expiresAt slot"
    and "\<not> verify (passwordHash slot) password"
  shows "accessRoute verify st slotId password now =
           (if failedAttempts slot + 1 \<ge> 3
            then (Error 403 ''Too many failed attempts. Slot deleted.'',
                  snd (deleteSlot (snd (incrementFailedAttempts st slotId)) slotId))
            else (Error 401 (''Invalid password. ''
                             @ string_of_int (3 - (failedAttempts slot + 1))
                             @ '' attempts remaining.''),
                  snd (incrementFailedAttempts st slotId)))
       \<and> getSlot (snd (incrementFailedAttempts st slotId)) slotId
           = Some (slot\<lparr>failedAttempts := failedAttempts slot + 1\<rparr>)
       \<and> getSlot (snd (deleteSlot (snd (incrementFailedAttempts st slotId)) slotId)) slotId
           = None
       \<and> (\<forall>password' now'.
             accessRoute verify (snd (deleteSlot (snd (incrementFailedAttempts st slotId)) slotId))
               slotId password' now'
             = (Error 404 ''Slot not found'',
                snd (deleteSlot (snd (incrementFailedAttempts st slotId)) slotId)))"
proof -
  let ?st1 = "snd (incrementFailedAttempts st slotId)"
  let ?st2 = "snd (deleteSlot ?st1 slotId)"
  have invalid: "\<not> verifySlotPassword verify st slotId password"
    using assms by (simp add: verifySlotPassword_def)
  have route: "accessRoute verify st slotId password now =
           (if failedAttempts slot + 1 \<ge> 3
            then (Error 403 ''Too many failed attempts. Slot deleted.'', ?st2)
            else (Error 401 (''Invalid password. ''
                             @ string_of_int (3 - (failedAttempts slot + 1))
                             @ '' attempts remaining.''), ?st1))"
    unfolding accessRoute_def using assms(1,2) invalid
    by (simp add: increment_eq [OF assms(1)] deleteSlot_eq Let_def)
  have counted: "getSlot ?st1 slotId = Some (slot\<lparr>failedAttempts := failedAttempts slot + 1\<rparr>)"
    using assms(1) by (simp add: getSlot_increment_same)
  have gone: "getSlot ?st2 slotId = None"
    by (rule getSlot_deleteSlot_same)
  have later: "\<forall>password' now'. accessRoute verify ?st2 slotId password' now'
             = (Error 404 ''Slot not found'', ?st2)"
    using gone by (simp add: accessRoute_not_found)
  from route counted gone later show ?thesis by blast
qed

theorem failed_access_counts_and_locks_witness:
  "getSlot (demo_state_failed 0) ''123456'' = Some (demo_slot\<lparr>failedAttempts := 0\<rparr>)
   \<and> \<not> 5000 > expiresAt (demo_slot\<lparr>failedAttempts := 0\<rparr>)
   \<and> \<not> demo_verify (passwordHash (demo_slot\<lparr>failedAttempts := 0\<rparr>)) ''nope''
   \<and> demo_verify (passwordHash demo_slot) ''abcd''
   \<and> accessSeq demo_verify (demo_state_failed 0) ''123456''
        [(''nope'', 5000), (''nope'', 5001), (''nope'', 5002), (''abcd'', 5003)]
      = ([Error 401 ''Invalid password. 2 attempts remaining.'',
          Error 401 ''Invalid password. 1 attempts remaining.'',
          Error 403 ''Too many failed attempts. Slot deleted.'',
          Error 404 ''Slot not found''], empty_state)"
proof -
  have live: "\<not> 5000 > expiresAt (demo_slot\<lparr>failedAttempts := 0\<rparr>)"
    "\<not> 5001 > expiresAt (demo_slot\<lparr>failedAttempts := 1\<rparr>)"
    "\<not> 5002 > expiresAt (demo_slot\<lparr>failedAttempts := 2\<rparr>)"
    by (simp_all add: demo_slot_def)
  have wrong: "\<not> demo_verify (passwordHash (demo_slot\<lparr>failedAttempts := n\<rparr>)) ''nope''" for n
    by (simp add: demo_verify_def demo_slot_def)
  have right: "demo_verify (passwordHash demo_slot) ''abcd''"
    by (simp add: demo_verify_def demo_slot_def)
  have a1: "accessRoute demo_verify (demo_state_failed 0) ''123456'' ''nope'' 5000
              = (Error 401 ''Invalid password. 2 attempts remaining.'', demo_state_failed 1)"
    using failed_access_counts_and_locks [where verify = demo_verify, OF demo_failed_found live(1) wrong]
    by (simp add: demo_failed_increment string_of_int_digits)
  have a2: "accessRoute demo_verify (demo_state_failed 1) ''123456'' ''nope'' 5001
              = (Error 401 ''Invalid password. 1 attempts remaining.'', demo_state_failed 2)"
    using failed_access_counts_and_locks [where verify = demo_verify, OF demo_failed_found live(2) wrong]
    by (simp add: demo_failed_increment string_of_int_digits)
  have a3: "accessRoute demo_verify (demo_state_failed 2) ''123456'' ''nope'' 5002
              = (Error 403 ''Too many failed attempts. Slot deleted.'', empty_state)"
    using failed_access_counts_and_locks [where verify = demo_verify, OF demo_failed_found live(3) wrong]
    by (simp add: demo_failed_increment demo_failed_deleted)
  have a4: "accessRoute demo_verify empty_state ''123456'' ''abcd'' 5003
              = (Error 404 ''Slot not found'', empty_state)"
    using failed_access_counts_and_locks [where verify = demo_verify, OF demo_failed_found live(3) wrong]
    by (simp add: demo_failed_increment demo_failed_deleted)
  show ?thesis
    using live(1) wrong [of 0] right
    by (simp add: demo_failed_found a1 a2 a3 a4)
qed

subsection \<open>Deleting twice\<close>

lemma deleteSlots_Cons:
  "deleteSlots st (s # rest) = deleteSlots (snd (deleteSlot st (slot_id s))) rest"
  by (simp add: deleteSlot_eq)

lemma deleteSlots_no_fault: "fst (deleteSlots st xs) = None"
proof (induction xs arbitrary: st)
  case Nil
  show ?case by simp
next
  case (Cons s rest)
  show ?case by (simp only: deleteSlots_Cons Cons.IH)
qed

lemma deleteSlot_absent:
  assumes "getSlot st i = None" and "getFiles st i = []" and "getTextContent st i = None"
  shows "deleteSlot st i = (None, st)"
proof -
  have "filter (\<lambda>s. slot_id s \<noteq> i) (slots st) = slots st"
    using assms(1) by (auto simp: getSlot_def find_None_iff filter_id_conv)
  moreover have "filter (\<lambda>f. file_slotId f \<noteq> i) (files st) = files st"
    using assms(2) by (auto simp: getFiles_def filter_empty_conv filter_id_conv)
  moreover have "filter (\<lambda>t. text_slotId t \<noteq> i) (text_contents st) = text_contents st"
    using assms(3) by (auto simp: getTextContent_def find_None_iff filter_id_conv)
  ultimately show ?thesis
    using assms(2) by (simp add: deleteSlot_eq deleteSlotRow_def)
qed

text \<open>
  C4. \<open>deleteSlot\<close> never faults: a blob that is not in the uploads directory is
  skipped. After it, the slot id has no slot row, no file record and no text record,
  and none of the files its records named is left in the uploads directory. A second
  \<open>deleteSlot\<close> on the same id returns without fault and leaves that state as it is.
  The sweep's loop over a list of expired slots that holds a slot deleted in the meantime
  passes over it, and the loop never faults, whatever the list and the state.
\<close>

theorem deleteSlot_idempotent:
  "deleteSlot st slotId = (None, snd (deleteSlot st slotId))
   \<and> getSlot (snd (deleteSlot st slotId)) slotId = None
   \<and> getFiles (snd (deleteSlot st slotId)) slotId = []
   \<and> getTextContent (snd (deleteSlot st slotId)) slotId = None
   \<and> filename ` set (getFiles st slotId) \<inter> uploads (snd (deleteSlot st slotId)) = {}
   \<and> deleteSlot (snd (deleteSlot st slotId)) slotId = (None, snd (deleteSlot st slotId))
   \<and> (slot_id stale = slotId \<longrightarrow>
        deleteSlots (snd (deleteSlot st slotId)) (stale # rest)
          = deleteSlots (snd (deleteSlot st slotId)) rest)
   \<and> fst (deleteSlots st' expired) = None"
proof -
  let ?st = "snd (deleteSlot st slotId)"
  have again: "deleteSlot ?st slotId = (None, ?st)"
    by (rule deleteSlot_absent)
       (simp_all only: getSlot_deleteSlot_same getFiles_deleteSlot_same
          getTextContent_deleteSlot_same)
  have blobs: "filename ` set (getFiles st slotId) \<inter> uploads ?st = {}"
    by (auto simp: uploads_deleteSlot)
  have sweep: "slot_id stale = slotId \<longrightarrow>
        deleteSlots ?st (stale # rest) = deleteSlots ?st rest"
    using again by simp
  have first: "deleteSlot st slotId = (None, ?st)"
    by (rule deleteSlot_pair)
  have clean: "getSlot ?st slotId = None" "getFiles ?st slotId = []"
    "getTextContent ?st slotId = None"
    by (simp_all only: getSlot_deleteSlot_same getFiles_deleteSlot_same
          getTextContent_deleteSlot_same)
  have quiet: "fst (deleteSlots st' expired) = None"
    by (rule deleteSlots_no_fault)
  from first clean blobs again sweep quiet show ?thesis
    by blast
qed

lemma demo_three_files_deleted:
  "snd (deleteSlot demo_three_files ''123456'') = demo_orphan_only"
  by (auto simp: deleteSlot_eq deleteSlotRow_def getFiles_def demo_three_files_def
      demo_slot_def demo_file_def demo_text_def empty_state_def demo_orphan_only_def)

theorem deleteSlot_idempotent_witness:
  "slot_id demo_slot = ''123456''
   \<and> deleteSlot demo_three_files ''123456'' = (None, demo_orphan_only)
   \<and> deleteSlot demo_orphan_only ''123456'' = (None, demo_orphan_only)
   \<and> deleteSlots demo_orphan_only [demo_slot] = (None, demo_orphan_only)
   \<and> getFiles demo_orphan_only ''123456'' = []
   \<and> uploads demo_orphan_only = {''9-zz.bin''}"
proof -
  have stale: "slot_id demo_slot = ''123456''"
    by (simp add: demo_slot_def)
  from deleteSlot_idempotent [of demo_three_files "''123456''" demo_slot "[]"]
  show ?thesis
    using stale by (simp add: demo_three_files_deleted) (simp add: demo_orphan_only_def)
qed

subsection \<open>The expiry instant\<close>

lemma find_Some_mem: "find P xs = Some x \<Longrightarrow> x \<in> set xs \<and> P x"
  by (induction xs) (auto split: if_splits)

lemma getSlot_deleteSlot_None:
  "getSlot st i = None \<Longrightarrow> getSlot (snd (deleteSlot st j)) i = None"
  by (cases "i = j") (simp_all add: getSlot_deleteSlot_same getSlot_deleteSlot_other)

lemma getSlot_deleteSlots_None:
  "getSlot st i = None \<Longrightarrow> getSlot (snd (deleteSlots st xs)) i = None"
proof (induction xs arbitrary: st)
  case Nil
  then show ?case by simp
next
  case (Cons s rest)
  from Cons.prems have "getSlot (snd (deleteSlot st (slot_id s))) i = None"
    by (rule getSlot_deleteSlot_None)
  then show ?case
    by (simp only: deleteSlots_Cons Cons.IH)
qed

lemma getSlot_deleteSlots_mem:
  "i \<in> slot_id ` set xs \<Longrightarrow> getSlot (snd (deleteSlots st xs)) i = None"
proof (induction xs arbitrary: st)
  case Nil
  then show ?case by simp
next
  case (Cons s rest)
  show ?case
  proof (cases "slot_id s = i")
    case True
    have "getSlot (snd (deleteSlot st (slot_id s))) i = None"
      using True getSlot_deleteSlot_same [of st i] by simp
    then show ?thesis
      by (simp only: deleteSlots_Cons getSlot_deleteSlots_None)
  next
    case False
    with Cons.prems have "i \<in> slot_id ` set rest" by auto
    then show ?thesis
      by (simp only: deleteSlots_Cons Cons.IH)
  qed
qed

text \<open>
  C10. At the instant \<open>now = expiresAt\<close> the test \<open>now > expiresAt\<close> is false on every
  request path: none of the four routes answers 410, each does what it does one
  millisecond earlier, and with a password that verifies each one serves. The access
  returns the content, an uploaded file is stored and a text is put in place, a file of
  the slot that is on disk is sent, an explicit delete deletes the slot. At the same
  instant the query of \<open>getExpiredSlots\<close>, \<open>expiresAt \<le> now\<close>, selects the slot, and
  the cleanup job deletes it.
\<close>

theorem boundary_instant_live_and_swept:
  assumes "getSlot st slotId = Some slot"
  shows "accessRoute verify st slotId password (expiresAt slot)
           = accessRoute verify st slotId password (expiresAt slot - 1)
       \<and> uploadRoute verify st slotId password text uploaded (expiresAt slot)
           = uploadRoute verify st slotId password text uploaded (expiresAt slot - 1)
       \<and> downloadRoute verify st slotId fileId password (expiresAt slot)
           = downloadRoute verify st slotId fileId password (expiresAt slot - 1)
       \<and> deleteRoute verify st slotId password (expiresAt slot)
           = deleteRoute verify st slotId password (expiresAt slot - 1)
       \<and> (verify (passwordHash slot) password \<longrightarrow>
            accessRoute verify st slotId password (expiresAt slot)
              = (Accessed \<lparr>resp_slot = sanitizeSlot slot,
                           resp_files = getFiles st slotId,
                           resp_textContent = getTextContent st slotId\<rparr>, st))
       \<and> fst (accessRoute verify st slotId password (expiresAt slot))
           \<noteq> Error 410 ''Slot has expired''
       \<and> slot \<in> set (getExpiredSlots st (expiresAt slot))
       \<and> getSlot (cleanupJob st (expiresAt slot)) slotId = None
       \<and> fst (uploadRoute verify st slotId password text uploaded (expiresAt slot))
           \<noteq> Error 410 ''Slot has expired''
       \<and> fst (downloadRoute verify st slotId fileId password (expiresAt slot))
           \<noteq> Error 410 ''Slot has expired''
       \<and> fst (deleteRoute verify st slotId password (expiresAt slot))
           \<noteq> Error 410 ''Slot has expired''
       \<and> (verify (passwordHash slot) password \<longrightarrow>
            (getFile st (new_id incoming) = None \<longrightarrow>
               uploadRoute verify st slotId password None [incoming] (expiresAt slot)
                 = (Success, st\<lparr>files := files st @ [fileRecord slotId incoming]\<rparr>))
          \<and> (t \<noteq> [] \<and> trim t \<noteq> [] \<longrightarrow>
               uploadRoute verify st slotId password (Some t) [] (expiresAt slot)
                 = (Success,
                    st\<lparr>text_contents :=
                         filter (\<lambda>r. text_slotId r \<noteq> slotId) (text_contents st)
                         @ [\<lparr>text_slotId = slotId, content = t\<rparr>]\<rparr>))
          \<and> (getFile st fileId = Some stored \<and> file_slotId stored = slotId
                \<and> filename stored \<in> uploads st \<longrightarrow>
               downloadRoute verify st slotId fileId password (expiresAt slot)
                 = (Download (filename stored) (originalName stored), st))
          \<and> deleteRoute verify st slotId password (expiresAt slot)
               = (Success, snd (deleteSlot st slotId)))
       \<and> (\<not> verify (passwordHash slot) password \<longrightarrow>
            uploadRoute verify st slotId password text uploaded (expiresAt slot)
              = (Error 401 ''Invalid password'', st)
          \<and> downloadRoute verify st slotId fileId password (expiresAt slot)
              = (Error 401 ''Invalid password'', st)
          \<and> deleteRoute verify st slotId password (expiresAt slot)
              = (Error 401 ''Invalid password'', st))"
proof -
  have acc: "accessRoute verify st slotId password (expiresAt slot)
           = accessRoute verify st slotId password (expiresAt slot - 1)"
    using assms by (simp add: accessRoute_def)
  have upl: "uploadRoute verify st slotId password text uploaded (expiresAt slot)
           = uploadRoute verify st slotId password text uploaded (expiresAt slot - 1)"
    using assms by (simp add: uploadRoute_def)
  have dwn: "downloadRoute verify st slotId fileId password (expiresAt slot)
           = downloadRoute verify st slotId fileId password (expiresAt slot - 1)"
    using assms by (simp add: downloadRoute_def)
  have del: "deleteRoute verify st slotId password (expiresAt slot)
           = deleteRoute verify st slotId password (expiresAt slot - 1)"
    using assms by (simp add: deleteRoute_def)
  have served: "verify (passwordHash slot) password \<longrightarrow>
            accessRoute verify st slotId password (expiresAt slot)
              = (Accessed \<lparr>resp_slot = sanitizeSlot slot,
                           resp_files = getFiles st slotId,
                           resp_textContent = getTextContent st slotId\<rparr>, st)"
    using assms by (simp add: accessRoute_def verifySlotPassword_def)
  have not410: "fst (accessRoute verify st slotId password (expiresAt slot))
           \<noteq> Error 410 ''Slot has expired''"
    using assms
    by (simp add: accessRoute_def increment_eq [OF assms] deleteSlot_eq Let_def)
  have mem: "slot \<in> set (slots st)" and key: "slot_id slot = slotId"
    using assms find_Some_mem [of "\<lambda>s. slot_id s = slotId" "slots st" slot]
    by (simp_all add: getSlot_def)
  have listed: "slot \<in> set (getExpiredSlots st (expiresAt slot))"
    using mem by (simp add: getExpiredSlots_def)
  then have "slotId \<in> slot_id ` set (getExpiredSlots st (expiresAt slot))"
    using key by force
  then have swept: "getSlot (cleanupJob st (expiresAt slot)) slotId = None"
    by (simp add: cleanupJob_def deleteExpiredSlots_def getSlot_deleteSlots_mem)
  have upl410: "fst (uploadRoute verify st slotId password text uploaded (expiresAt slot))
           \<noteq> Error 410 ''Slot has expired''"
    using assms
    by (simp add: uploadRoute_def split_beta option.case_eq_if sum.case_eq_if)
  have dwn410: "fst (downloadRoute verify st slotId fileId password (expiresAt slot))
           \<noteq> Error 410 ''Slot has expired''"
    using assms
    by (simp add: downloadRoute_def option.case_eq_if)
  have del410: "fst (deleteRoute verify st slotId password (expiresAt slot))
           \<noteq> Error 410 ''Slot has expired''"
    using assms
    by (simp add: deleteRoute_def deleteSlot_eq)
  have stored_file: "uploadRoute verify st slotId password None [incoming] (expiresAt slot)
                 = (Success, st\<lparr>files := files st @ [fileRecord slotId incoming]\<rparr>)"
    if "verify (passwordHash slot) password" and "getFile st (new_id incoming) = None"
    using assms that
    by (simp add: uploadRoute_def verifySlotPassword_def addFile_def fileRecord_def)
  have stored_text: "uploadRoute verify st slotId password (Some t) [] (expiresAt slot)
                 = (Success,
                    st\<lparr>text_contents :=
                         filter (\<lambda>r. text_slotId r \<noteq> slotId) (text_contents st)
                         @ [\<lparr>text_slotId = slotId, content = t\<rparr>]\<rparr>)"
    if "verify (passwordHash slot) password" and "t \<noteq> [] \<and> trim t \<noteq> []"
    using assms that
    by (simp add: uploadRoute_def verifySlotPassword_def addTextContent_def)
  have sent: "downloadRoute verify st slotId fileId password (expiresAt slot)
                 = (Download (filename stored) (originalName stored), st)"
    if "verify (passwordHash slot) password"
      and "getFile st fileId = Some stored \<and> file_slotId stored = slotId
           \<and> filename stored \<in> uploads st"
    using assms that
    by (simp add: downloadRoute_def verifySlotPassword_def)
  have deleted: "deleteRoute verify st slotId password (expiresAt slot)
               = (Success, snd (deleteSlot st slotId))"
    if "verify (passwordHash slot) password"
    using assms that
    by (simp add: deleteRoute_def verifySlotPassword_def deleteSlot_eq)
  have refused: "uploadRoute verify st slotId password text uploaded (expiresAt slot)
              = (Error 401 ''Invalid password'', st)
          \<and> downloadRoute verify st slotId fileId password (expiresAt slot)
              = (Error 401 ''Invalid password'', st)
          \<and> deleteRoute verify st slotId password (expiresAt slot)
              = (Error 401 ''Invalid password'', st)"
    if "\<not> verify (passwordHash slot) password"
    using assms that
    by (simp add: uploadRoute_def downloadRoute_def deleteRoute_def verifySlotPassword_def)
  from acc upl dwn del served not410 listed swept upl410 dwn410 del410
    stored_file stored_text sent deleted refused
  show ?thesis
    by blast
qed

lemma demo_boundary_facts:
  shows "getSlot demo_state ''123456'' = Some demo_slot"
    and "demo_verify (passwordHash demo_slot) ''abcd''"
    and "expiresAt demo_slot = 86401000"
    and "getFile demo_state (new_id demo_upload) = None"
    and "getFile demo_state ''f1'' = Some demo_file"
    and "file_slotId demo_file = ''123456''"
    and "filename demo_file \<in> uploads demo_state"
    and "filename demo_file = ''1-aa.txt''"
    and "originalName demo_file = ''a.txt''"
    and "''hi'' \<noteq> [] \<and> trim ''hi'' \<noteq> []"
  by (simp_all add: getSlot_def getFile_def demo_state_def demo_slot_def demo_file_def
      demo_upload_def demo_verify_def trim_def whitespace_def)

theorem boundary_instant_live_and_swept_witness:
  "getSlot demo_state ''123456'' = Some demo_slot
   \<and> demo_verify (passwordHash demo_slot) ''abcd''
   \<and> accessRoute demo_verify demo_state ''123456'' ''abcd'' 86401000
        = (Accessed \<lparr>resp_slot = \<lparr>pub_id = ''123456'', pub_createdAt = 1000,
                                   pub_expiresAt = 86401000\<rparr>,
                      resp_files = [demo_file],
                      resp_textContent = Some demo_text\<rparr>, demo_state)
   \<and> getExpiredSlots demo_state 86401000 = [demo_slot]
   \<and> cleanupJob demo_state 86401000 = empty_state
   \<and> uploadRoute demo_verify demo_state ''123456'' ''abcd'' None [demo_upload] 86401000
        = (Success, demo_state\<lparr>files := [demo_file, fileRecord ''123456'' demo_upload]\<rparr>)
   \<and> uploadRoute demo_verify demo_state ''123456'' ''abcd'' (Some ''hi'') [] 86401000
        = (Success,
           demo_state\<lparr>text_contents := [\<lparr>text_slotId = ''123456'', content = ''hi''\<rparr>]\<rparr>)
   \<and> downloadRoute demo_verify demo_state ''123456'' ''f1'' ''abcd'' 86401000
        = (Download ''1-aa.txt'' ''a.txt'', demo_state)
   \<and> deleteRoute demo_verify demo_state ''123456'' ''abcd'' 86401000
        = (Success, empty_state)"
proof -
  note found = demo_boundary_facts(1)
  note valid = demo_boundary_facts(2)
  note at = demo_boundary_facts(3)
  have listed: "getExpiredSlots demo_state 86401000 = [demo_slot]"
    by (simp add: getExpiredSlots_def demo_state_def demo_slot_def)
  have swept: "cleanupJob demo_state 86401000 = empty_state"
  proof -
    have "slot_id demo_slot = ''123456''"
      by (simp add: demo_slot_def)
    then have "deleteSlots demo_state [demo_slot] = deleteSlots empty_state []"
      by (simp only: deleteSlots_Cons demo_deleted)
    then show ?thesis
      by (simp add: cleanupJob_def deleteExpiredSlots_def listed)
  qed
  have pub: "sanitizeSlot demo_slot
               = \<lparr>pub_id = ''123456'', pub_createdAt = 1000, pub_expiresAt = 86401000\<rparr>"
    by (simp add: sanitizeSlot_def demo_slot_def)
  have rows: "getFiles demo_state ''123456'' = [demo_file]"
    "getTextContent demo_state ''123456'' = Some demo_text"
    by (simp_all add: getFiles_def getTextContent_def demo_state_def demo_file_def
          demo_text_def)
  note inst = boundary_instant_live_and_swept
    [where verify = demo_verify and password = "''abcd''" and incoming = demo_upload
       and t = "''hi''" and fileId = "''f1''" and stored = demo_file, OF found]
  from inst valid
  have "accessRoute demo_verify demo_state ''123456'' ''abcd'' (expiresAt demo_slot)
            = (Accessed \<lparr>resp_slot = sanitizeSlot demo_slot,
                         resp_files = getFiles demo_state ''123456'',
                         resp_textContent = getTextContent demo_state ''123456''\<rparr>,
               demo_state)"
    by blast
  then have a: "accessRoute demo_verify demo_state ''123456'' ''abcd'' 86401000
        = (Accessed \<lparr>resp_slot = \<lparr>pub_id = ''123456'', pub_createdAt = 1000,
                                   pub_expiresAt = 86401000\<rparr>,
                      resp_files = [demo_file],
                      resp_textContent = Some demo_text\<rparr>, demo_state)"
    by (simp only: at pub rows)
  from inst valid demo_boundary_facts(4)
  have "uploadRoute demo_verify demo_state ''123456'' ''abcd'' None [demo_upload]
          (expiresAt demo_slot)
        = (Success, demo_state\<lparr>files := files demo_state @ [fileRecord ''123456'' demo_upload]\<rparr>)"
    by blast
  then have u1: "uploadRoute demo_verify demo_state ''123456'' ''abcd'' None [demo_upload] 86401000
        = (Success, demo_state\<lparr>files := [demo_file, fileRecord ''123456'' demo_upload]\<rparr>)"
    by (simp add: at) (simp add: demo_state_def)
  from inst valid demo_boundary_facts(10)
  have "uploadRoute demo_verify demo_state ''123456'' ''abcd'' (Some ''hi'') []
          (expiresAt demo_slot)
        = (Success,
           demo_state\<lparr>text_contents :=
              filter (\<lambda>r. text_slotId r \<noteq> ''123456'') (text_contents demo_state)
              @ [\<lparr>text_slotId = ''123456'', content = ''hi''\<rparr>]\<rparr>)"
    by blast
  then have u2: "uploadRoute demo_verify demo_state ''123456'' ''abcd'' (Some ''hi'') [] 86401000
        = (Success,
           demo_state\<lparr>text_contents := [\<lparr>text_slotId = ''123456'', content = ''hi''\<rparr>]\<rparr>)"
    by (simp add: at) (simp add: demo_state_def demo_text_def)
  from inst valid demo_boundary_facts(5,6,7)
  have "downloadRoute demo_verify demo_state ''123456'' ''f1'' ''abcd'' (expiresAt demo_slot)
        = (Download (filename demo_file) (originalName demo_file), demo_state)"
    by blast
  then have d: "downloadRoute demo_verify demo_state ''123456'' ''f1'' ''abcd'' 86401000
        = (Download ''1-aa.txt'' ''a.txt'', demo_state)"
    by (simp only: at demo_boundary_facts(8,9))
  from inst valid
  have "deleteRoute demo_verify demo_state ''123456'' ''abcd'' (expiresAt demo_slot)
        = (Success, snd (deleteSlot demo_state ''123456''))"
    by blast
  then have x: "deleteRoute demo_verify demo_state ''123456'' ''abcd'' 86401000
        = (Success, empty_state)"
    by (simp only: at demo_deleted)
  from found valid a listed swept u1 u2 d x show ?thesis
    by blast
qed

subsection \<open>What an access returns\<close>

lemma accessRoute_Accessed:
  assumes "accessRoute verify st slotId password now = (Accessed body, st')"
  shows "\<exists>slot. getSlot st slotId = Some slot
           \<and> body = \<lparr>resp_slot = sanitizeSlot slot, resp_files = getFiles st slotId,
                      resp_textContent = getTextContent st slotId\<rparr>"
proof (cases "getSlot st slotId")
  case None
  with assms show ?thesis by (simp add: accessRoute_def)
next
  case (Some slot)
  show ?thesis
  proof (cases "now > expiresAt slot")
    case True
    with assms Some show ?thesis
      by (simp add: accessRoute_def deleteSlot_eq)
  next
    case live: False
    show ?thesis
    proof (cases "verifySlotPassword verify st slotId password")
      case True
      with assms Some live show ?thesis
        by (auto simp: accessRoute_def)
    next
      case False
      with assms Some live show ?thesis
        by (simp add: accessRoute_def increment_eq [OF Some] deleteSlot_eq Let_def
            split: if_splits)
    qed
  qed
qed

lemma find_map_secret:
  "find (\<lambda>s. slot_id s = i) (map (\<lambda>s. s\<lparr>passwordHash := h s, failedAttempts := n s\<rparr>) xs)
     = map_option (\<lambda>s. s\<lparr>passwordHash := h s, failedAttempts := n s\<rparr>)
         (find (\<lambda>s. slot_id s = i) xs)"
  by (induction xs) auto

text \<open>
  C6. The body of a successful access is made of the slot's id, \<open>createdAt\<close> and
  \<open>expiresAt\<close>, the file records of the slot and its text record, and of nothing else:
  it stays the same when \<open>passwordHash\<close> and \<open>failedAttempts\<close> of the stored slots are
  replaced by any other values (and the access still succeeds).
\<close>

theorem access_response_public_fields_only:
  assumes "accessRoute verify st slotId password now = (Accessed body, st')"
  shows "(\<exists>slot. getSlot st slotId = Some slot
            \<and> body = \<lparr>resp_slot = \<lparr>pub_id = slot_id slot, pub_createdAt = createdAt slot,
                                     pub_expiresAt = expiresAt slot\<rparr>,
                       resp_files = getFiles st slotId,
                       resp_textContent = getTextContent st slotId\<rparr>)
       \<and> (accessRoute verify'
             (st\<lparr>slots := map (\<lambda>s. s\<lparr>passwordHash := h s, failedAttempts := n s\<rparr>) (slots st)\<rparr>)
             slotId password' now' = (Accessed body', st'')
            \<longrightarrow> body' = body)"
proof -
  let ?st = "st\<lparr>slots := map (\<lambda>s. s\<lparr>passwordHash := h s, failedAttempts := n s\<rparr>) (slots st)\<rparr>"
  from accessRoute_Accessed [OF assms] obtain slot where
    slot: "getSlot st slotId = Some slot" and
    body: "body = \<lparr>resp_slot = sanitizeSlot slot, resp_files = getFiles st slotId,
                    resp_textContent = getTextContent st slotId\<rparr>"
    by blast
  have first: "\<exists>slot. getSlot st slotId = Some slot
            \<and> body = \<lparr>resp_slot = \<lparr>pub_id = slot_id slot, pub_createdAt = createdAt slot,
                                     pub_expiresAt = expiresAt slot\<rparr>,
                       resp_files = getFiles st slotId,
                       resp_textContent = getTextContent st slotId\<rparr>"
    using slot body by (simp add: sanitizeSlot_def)
  have second: "body' = body"
    if other: "accessRoute verify' ?st slotId password' now' = (Accessed body', st'')"
  proof -
    from accessRoute_Accessed [OF other] obtain slot' where
      slot': "getSlot ?st slotId = Some slot'" and
      body': "body' = \<lparr>resp_slot = sanitizeSlot slot', resp_files = getFiles ?st slotId,
                    resp_textContent = getTextContent ?st slotId\<rparr>"
      by blast
    have "getSlot ?st slotId
            = map_option (\<lambda>s. s\<lparr>passwordHash := h s, failedAttempts := n s\<rparr>) (getSlot st slotId)"
      by (simp add: getSlot_def find_map_secret)
    with slot slot' have "slot' = slot\<lparr>passwordHash := h slot, failedAttempts := n slot\<rparr>"
      by simp
    then have "sanitizeSlot slot' = sanitizeSlot slot"
      by (simp add: sanitizeSlot_def)
    moreover have "getFiles ?st slotId = getFiles st slotId"
      "getTextContent ?st slotId = getTextContent st slotId"
      by (simp_all add: getFiles_def getTextContent_def)
    ultimately show ?thesis
      using body body' by simp
  qed
  from first second show ?thesis by blast
qed

theorem access_response_public_fields_only_witness:
  "accessRoute demo_verify demo_state ''123456'' ''abcd'' 5000
     = (Accessed \<lparr>resp_slot = \<lparr>pub_id = ''123456'', pub_createdAt = 1000,
                                pub_expiresAt = 86401000\<rparr>,
                   resp_files = [demo_file],
                   resp_textContent = Some demo_text\<rparr>, demo_state)
   \<and> (\<exists>slot. getSlot demo_state ''123456'' = Some slot
         \<and> \<lparr>resp_slot = \<lparr>pub_id = ''123456'', pub_createdAt = 1000,
                            pub_expiresAt = 86401000\<rparr>,
              resp_files = [demo_file], resp_textContent = Some demo_text\<rparr>
            = \<lparr>resp_slot = \<lparr>pub_id = slot_id slot, pub_createdAt = createdAt slot,
                              pub_expiresAt = expiresAt slot\<rparr>,
                resp_files = getFiles demo_state ''123456'',
                resp_textContent = getTextContent demo_state ''123456''\<rparr>)"
proof -
  have found: "getSlot demo_state ''123456'' = Some demo_slot"
    by (simp add: getSlot_def demo_state_def demo_slot_def)
  have valid: "verifySlotPassword demo_verify demo_state ''123456'' ''abcd''"
    by (simp add: verifySlotPassword_def found) (simp add: demo_verify_def demo_slot_def)
  have live: "\<not> 5000 > expiresAt demo_slot"
    by (simp add: demo_slot_def)
  have pub: "sanitizeSlot demo_slot
               = \<lparr>pub_id = ''123456'', pub_createdAt = 1000, pub_expiresAt = 86401000\<rparr>"
    by (simp add: sanitizeSlot_def demo_slot_def)
  have rows: "getFiles demo_state ''123456'' = [demo_file]"
    "getTextContent demo_state ''123456'' = Some demo_text"
    by (simp_all add: getFiles_def getTextContent_def demo_state_def demo_file_def
          demo_text_def)
  have served: "accessRoute demo_verify demo_state ''123456'' ''abcd'' 5000
     = (Accessed \<lparr>resp_slot = \<lparr>pub_id = ''123456'', pub_createdAt = 1000,
                                pub_expiresAt = 86401000\<rparr>,
                   resp_files = [demo_file],
                   resp_textContent = Some demo_text\<rparr>, demo_state)"
    using valid live by (simp add: accessRoute_def found pub rows)
  from access_response_public_fields_only [OF served] served show ?thesis
    by blast
qed

subsection \<open>Wrong passwords outside the access path\<close>

lemma wrong_password_leaves_state:
  assumes "getSlot st slotId = Some slot" and "\<not> now > expiresAt slot"
    and "\<not> verify (passwordHash slot) password"
  shows "uploadRoute verify st slotId password text uploaded now
           = (Error 401 ''Invalid password'', st)"
    and "downloadRoute verify st slotId fileId password now
           = (Error 401 ''Invalid password'', st)"
    and "deleteRoute verify st slotId password now
           = (Error 401 ''Invalid password'', st)"
  using assms
  by (simp_all add: uploadRoute_def downloadRoute_def deleteRoute_def verifySlotPassword_def)

text \<open>
  C2. A wrong password is counted on the access path only. On a slot with
  \<open>failedAttempts = 0\<close>, upload, download and delete with a wrong password answer 401
  and leave the state, and so the counter, as it was; the same wrong password on the
  access path leaves the counter at 1.
\<close>

theorem wrong_password_counted_on_access_only:
  "failedAttempts demo_slot = 0
   \<and> getSlot demo_state ''123456'' = Some demo_slot
   \<and> \<not> demo_verify (passwordHash demo_slot) ''nope''
   \<and> uploadRoute demo_verify demo_state ''123456'' ''nope'' None [] 5000
        = (Error 401 ''Invalid password'', demo_state)
   \<and> downloadRoute demo_verify demo_state ''123456'' ''f1'' ''nope'' 5000
        = (Error 401 ''Invalid password'', demo_state)
   \<and> deleteRoute demo_verify demo_state ''123456'' ''nope'' 5000
        = (Error 401 ''Invalid password'', demo_state)
   \<and> accessRoute demo_verify demo_state ''123456'' ''nope'' 5000
        = (Error 401 ''Invalid password. 2 attempts remaining.'',
           demo_state\<lparr>slots := [demo_slot\<lparr>failedAttempts := 1\<rparr>]\<rparr>)"
proof -
  have found: "getSlot demo_state ''123456'' = Some demo_slot"
    by (simp add: getSlot_def demo_state_def demo_slot_def)
  have live: "\<not> 5000 > expiresAt demo_slot"
    by (simp add: demo_slot_def)
  have wrong: "\<not> demo_verify (passwordHash demo_slot) ''nope''"
    by (simp add: demo_verify_def demo_slot_def)
  have invalid: "\<not> verifySlotPassword demo_verify demo_state ''123456'' ''nope''"
    using wrong by (simp add: verifySlotPassword_def found)
  have zero: "failedAttempts demo_slot = 0"
    by (simp add: demo_slot_def)
  have counted: "accessRoute demo_verify demo_state ''123456'' ''nope'' 5000
        = (Error 401 ''Invalid password. 2 attempts remaining.'',
           demo_state\<lparr>slots := [demo_slot\<lparr>failedAttempts := 1\<rparr>]\<rparr>)"
    using live invalid
    by (simp add: accessRoute_def found increment_eq [OF found] zero string_of_int_digits)
       (simp add: demo_state_def demo_slot_def)
  from wrong_password_leaves_state [where verify = demo_verify, OF found live wrong]
    zero found wrong counted
  show ?thesis
    by blast
qed

subsection \<open>What an operation can change in a slot\<close>

lemma getSlot_cong_slots: "slots st' = slots st \<Longrightarrow> getSlot st' i = getSlot st i"
  by (simp add: getSlot_def)

lemma addFiles_slots: "slots (snd (addFiles st slotId ups)) = slots st"
proof (induction ups arbitrary: st)
  case Nil
  show ?case by simp
next
  case (Cons u ups)
  show ?case
    by (auto simp: addFile_def Cons.IH split: sum.splits if_splits)
qed

lemma addTextContent_slots: "addTextContent st t = Inr st' \<Longrightarrow> slots st' = slots st"
  by (auto simp: addTextContent_def split: if_splits)

lemma getSlot_deleteSlot_cases:
  "getSlot (snd (deleteSlot st j)) i = (if i = j then None else getSlot st i)"
  by (simp add: getSlot_deleteSlot_same getSlot_deleteSlot_other)

lemma getSlot_increment_cases:
  "getSlot (snd (incrementFailedAttempts st j)) i
     = (if i = j
        then map_option (\<lambda>s. s\<lparr>failedAttempts := failedAttempts s + 1\<rparr>) (getSlot st i)
        else getSlot st i)"
  by (simp add: getSlot_increment_same getSlot_increment_other)

lemma getSlot_deleteSlots_cases:
  "getSlot (snd (deleteSlots st xs)) i = None \<or> getSlot (snd (deleteSlots st xs)) i = getSlot st i"
proof (induction xs arbitrary: st)
  case Nil
  show ?case by simp
next
  case (Cons s rest)
  from Cons.IH [of "snd (deleteSlot st (slot_id s))"] show ?case
    by (auto simp only: deleteSlots_Cons getSlot_deleteSlot_cases split: if_splits)
qed

lemma addTextContent_projr_slots:
  "slots (projr (addTextContent st t)) = slots st" if "\<not> isl (addTextContent st t)"
  using that by (auto simp: addTextContent_def split: if_splits)

lemma uploadRoute_slot:
  "getSlot (snd (uploadRoute verify st slotId password text uploaded now)) i = None
   \<or> getSlot (snd (uploadRoute verify st slotId password text uploaded now)) i = getSlot st i"
proof -
  have files: "getSlot (snd (addFiles st slotId uploaded)) j = getSlot st j" for j
    by (rule getSlot_cong_slots) (rule addFiles_slots)
  have upsert: "getSlot (projr (addTextContent (snd (addFiles st slotId uploaded)) t)) j
                  = getSlot st j"
    if "\<not> isl (addTextContent (snd (addFiles st slotId uploaded)) t)" for t j
    using addTextContent_projr_slots [OF that] addFiles_slots [of st slotId uploaded]
    by (simp add: getSlot_def)
  show ?thesis
    unfolding uploadRoute_def
    by (simp add: split_beta option.case_eq_if sum.case_eq_if getSlot_deleteSlot_cases
        files upsert)
qed

lemma accessRoute_slot:
  "getSlot (snd (accessRoute verify st slotId password now)) i = None
   \<or> getSlot (snd (accessRoute verify st slotId password now)) i = getSlot st i
   \<or> getSlot (snd (accessRoute verify st slotId password now)) i
        = map_option (\<lambda>s. s\<lparr>failedAttempts := failedAttempts s + 1\<rparr>) (getSlot st i)"
  unfolding accessRoute_def
  by (simp add: split_beta option.case_eq_if Let_def getSlot_deleteSlot_cases
      getSlot_increment_cases)

lemma downloadRoute_slot:
  "getSlot (snd (downloadRoute verify st slotId fileId password now)) i = None
   \<or> getSlot (snd (downloadRoute verify st slotId fileId password now)) i = getSlot st i"
  unfolding downloadRoute_def
  by (simp add: split_beta option.case_eq_if getSlot_deleteSlot_cases)

lemma deleteRoute_slot:
  "getSlot (snd (deleteRoute verify st slotId password now)) i = None
   \<or> getSlot (snd (deleteRoute verify st slotId password now)) i = getSlot st i"
  unfolding deleteRoute_def
  by (simp add: split_beta option.case_eq_if getSlot_deleteSlot_cases)

lemma cleanupJob_slot:
  "getSlot (cleanupJob st now) i = None \<or> getSlot (cleanupJob st now) i = getSlot st i"
  unfolding cleanupJob_def deleteExpiredSlots_def
  by (rule getSlot_deleteSlots_cases)

lemma whileTaken_free:
  "whileTaken st slotId rs = Some (j, rs') \<Longrightarrow> getSlot st j = None"
proof (induction st slotId rs rule: whileTaken.induct)
  case (1 st slotId rs)
  show ?case
  proof (cases "getSlot st slotId \<noteq> None")
    case taken: True
    show ?thesis
    proof (cases "generateSlotId rs")
      case None
      with taken "1.prems" show ?thesis
        by (simp add: whileTaken.simps [of st slotId rs])
    next
      case (Some p)
      obtain slotId' rs1 where p: "p = (slotId', rs1)" by (cases p)
      from taken Some p "1.prems" have "whileTaken st slotId' rs1 = Some (j, rs')"
        by (simp add: whileTaken.simps [of st slotId rs])
      with "1.IH" [OF taken Some p [symmetric]] show ?thesis .
    qed
  next
    case False
    with "1.prems" show ?thesis
      by (simp add: whileTaken.simps [of st slotId rs])
  qed
qed

lemma getSlot_append:
  "getSlot (st\<lparr>slots := slots st @ [slot]\<rparr>) i
     = (case getSlot st i of
          Some s \<Rightarrow> Some s
        | None \<Rightarrow> if slot_id slot = i then Some slot else None)"
proof -
  have "find P (xs @ [x]) = (case find P xs of Some y \<Rightarrow> Some y
                            | None \<Rightarrow> if P x then Some x else None)" for P xs and x :: Slot
    by (induction xs) auto
  then show ?thesis
    by (simp add: getSlot_def)
qed

lemma createSlot_Inr:
  assumes "createSlot hash st password rs salt now = Some (Inr slot, st')"
  shows "slot = \<lparr>slot_id = slot_id slot, passwordHash = hash salt password, createdAt = now,
                 expiresAt = now + 24 * 60 * 60 * 1000, failedAttempts = 0\<rparr>"
    and "getSlot st (slot_id slot) = None"
    and "st' = st\<lparr>slots := slots st @ [slot]\<rparr>"
    and "\<exists>slotId0 rs0 rs1. generateSlotId rs = Some (slotId0, rs0)
           \<and> whileTaken st slotId0 rs0 = Some (slot_id slot, rs1)"
proof -
  from assms obtain slotId0 rs0 where gen: "generateSlotId rs = Some (slotId0, rs0)"
    by (auto simp: createSlot_def split: option.splits)
  from assms gen obtain slotId rs1 where loop: "whileTaken st slotId0 rs0 = Some (slotId, rs1)"
    by (auto simp: createSlot_def split: option.splits)
  have free: "getSlot st slotId = None"
    using loop by (rule whileTaken_free)
  from assms gen loop free
  have slot: "slot = \<lparr>slot_id = slotId, passwordHash = hash salt password, createdAt = now,
                 expiresAt = now + 24 * 60 * 60 * 1000, failedAttempts = 0\<rparr>"
    and st': "st' = st\<lparr>slots := slots st @ [slot]\<rparr>"
    by (auto simp: createSlot_def insertSlot_def Let_def)
  from slot have key: "slot_id slot = slotId" by simp
  show "slot = \<lparr>slot_id = slot_id slot, passwordHash = hash salt password, createdAt = now,
                 expiresAt = now + 24 * 60 * 60 * 1000, failedAttempts = 0\<rparr>"
    using slot key by simp
  show "getSlot st (slot_id slot) = None"
    using free key by simp
  show "st' = st\<lparr>slots := slots st @ [slot]\<rparr>"
    by (rule st')
  show "\<exists>slotId0 rs0 rs1. generateSlotId rs = Some (slotId0, rs0)
           \<and> whileTaken st slotId0 rs0 = Some (slot_id slot, rs1)"
    using gen loop key by blast
qed

lemma createSlot_state:
  assumes "createSlot hash st password rs salt now = Some (r, st')"
    and "getSlot st i = Some s"
  shows "getSlot st' i = Some s"
proof (cases r)
  case (Inl e)
  with assms(1) have "st' = st"
    by (auto simp: createSlot_def Let_def split: option.splits sum.splits)
  with assms(2) show ?thesis by simp
next
  case (Inr slot)
  with assms(1) have "st' = st\<lparr>slots := slots st @ [slot]\<rparr>"
    using createSlot_Inr(3) by blast
  with assms(2) show ?thesis
    by (simp add: getSlot_append)
qed

lemma createRoute_slot:
  assumes "createRoute hash st password rs salt now = Some (r, st')"
    and "getSlot st i = Some s"
  shows "getSlot st' i = Some s"
proof (cases "length password < 4")
  case True
  with assms show ?thesis by (simp add: createRoute_def)
next
  case False
  with assms(1) obtain r' where "createSlot hash st password rs salt now = Some (r', st')"
    by (auto simp: createRoute_def split: option.splits sum.splits)
  then show ?thesis
    using assms(2) by (rule createSlot_state)
qed

text \<open>
  C5. A slot that \<open>createSlot\<close> returns has \<open>expiresAt = createdAt + 24 h\<close> (in
  milliseconds) and \<open>failedAttempts = 0\<close>, and is the row stored under its id. Whatever
  acts on the state then (one of the five routes or the cleanup job), a slot that is
  there before and after has the same \<open>passwordHash\<close>, \<open>createdAt\<close> and \<open>expiresAt\<close>,
  and its \<open>failedAttempts\<close> is the same or one more.
\<close>

theorem slot_fields_fixed_counter_grows:
  "(createSlot hash st password rs salt now = Some (Inr slot, st1) \<longrightarrow>
      expiresAt slot = createdAt slot + 24 * 60 * 60 * 1000
      \<and> failedAttempts slot = 0
      \<and> getSlot st1 (slot_id slot) = Some slot)
   \<and> (step hash verify st req = Some st' \<and> getSlot st i = Some s \<and> getSlot st' i = Some s' \<longrightarrow>
        passwordHash s' = passwordHash s
        \<and> createdAt s' = createdAt s
        \<and> expiresAt s' = expiresAt s
        \<and> (failedAttempts s' = failedAttempts s \<or> failedAttempts s' = failedAttempts s + 1))"
proof -
  have created: "expiresAt slot = createdAt slot + 24 * 60 * 60 * 1000
      \<and> failedAttempts slot = 0 \<and> getSlot st1 (slot_id slot) = Some slot"
    if c: "createSlot hash st password rs salt now = Some (Inr slot, st1)"
  proof -
    have "getSlot st1 (slot_id slot) = Some slot"
      using createSlot_Inr(2,3) [OF c] by (simp add: getSlot_append)
    moreover have "createdAt slot = now" "expiresAt slot = now + 24 * 60 * 60 * 1000"
      "failedAttempts slot = 0"
      using createSlot_Inr(1) [OF c]
      by (metis Slot.select_convs(3), metis Slot.select_convs(4), metis Slot.select_convs(5))
    ultimately show ?thesis by simp
  qed
  have kept: "getSlot st' i = None \<or> getSlot st' i = Some s
      \<or> getSlot st' i = Some (s\<lparr>failedAttempts := failedAttempts s + 1\<rparr>)"
    if run: "step hash verify st req = Some st'" and before: "getSlot st i = Some s"
  proof (cases req)
    case (CreateReq password rs salt now)
    with run obtain r where "createRoute hash st password rs salt now = Some (r, st')"
      by auto
    then have "getSlot st' i = Some s"
      using before by (rule createRoute_slot)
    then show ?thesis by simp
  next
    case (UploadReq slotId password t uploaded now)
    with run before uploadRoute_slot [of verify st slotId password t uploaded now i]
    show ?thesis by auto
  next
    case (AccessReq slotId password now)
    with run before accessRoute_slot [of verify st slotId password now i]
    show ?thesis by auto
  next
    case (DownloadReq slotId fileId password now)
    with run before downloadRoute_slot [of verify st slotId fileId password now i]
    show ?thesis by auto
  next
    case (DeleteReq slotId password now)
    with run before deleteRoute_slot [of verify st slotId password now i]
    show ?thesis by auto
  next
    case (CleanupJob now)
    with run before cleanupJob_slot [of st now i]
    show ?thesis by auto
  qed
  have fixed: "passwordHash s' = passwordHash s \<and> createdAt s' = createdAt s
        \<and> expiresAt s' = expiresAt s
        \<and> (failedAttempts s' = failedAttempts s \<or> failedAttempts s' = failedAttempts s + 1)"
    if "step hash verify st req = Some st'" and "getSlot st i = Some s"
      and "getSlot st' i = Some s'"
    using kept [OF that(1,2)] that(3) by auto
  from created fixed show ?thesis by blast
qed

subsection \<open>Slot identifiers\<close>

lemma demo_generate_first: "generateSlotId demo_draws = Some (''123456'', demo_draws_rest)"
  by code_simp

lemma demo_generate_second: "generateSlotId demo_draws_rest = Some (''70000009'', [])"
  by code_simp

lemma demo_createSlot_rest:
  "createSlot demo_hash demo_state ''wxyz'' demo_draws_rest ''salt'' 7000
     = Some (Inr demo_created, demo_state\<lparr>slots := [demo_slot, demo_created]\<rparr>)"
  by code_simp

lemma demo_createSlot:
  "createSlot demo_hash demo_state ''wxyz'' demo_draws ''salt'' 7000
     = Some (Inr demo_created, demo_state\<lparr>slots := [demo_slot, demo_created]\<rparr>)"
  by code_simp

lemma bitlength_bounds: "0 < n \<Longrightarrow> 2 ^ (bitlength n - 1) \<le> n \<and> n < 2 ^ bitlength n"
proof (induction n rule: bitlength.induct)
  case (1 n)
  have b: "bitlength n = Suc (bitlength (n div 2))"
    using "1.prems" by (simp add: bitlength.simps [of n])
  show ?case
  proof (cases "n div 2 \<le> 0")
    case True
    with "1.prems" have "n = 1" by linarith
    then show ?thesis
      by (simp add: bitlength.simps [of 1] bitlength.simps [of 0])
  next
    case False
    then have half: "0 < n div 2" by simp
    from "1.prems" have "\<not> n \<le> 0" by simp
    from "1.IH" [OF this half] have ih: "2 ^ (bitlength (n div 2) - 1) \<le> n div 2"
      "n div 2 < 2 ^ bitlength (n div 2)"
      by simp_all
    have pos: "0 < bitlength (n div 2)"
      using half by (simp add: bitlength.simps [of "n div 2"])
    then have "(2::int) ^ bitlength (n div 2) = 2 * 2 ^ (bitlength (n div 2) - 1)"
      by (cases "bitlength (n div 2)") simp_all
    with ih(1) have lo: "2 ^ bitlength (n div 2) \<le> n" by linarith
    from ih(2) have hi: "n < 2 * 2 ^ bitlength (n div 2)" by linarith
    from lo hi b show ?thesis by simp
  qed
qed

text \<open>
  The rounded product stays below \<open>n\<close>. With \<^verbatim>\<open>m < 2^k\<close> the exact product is at most
  \<^verbatim>\<open>n * 2^k - n\<close>; rounding up adds at most half a unit of the last kept bit, \<^verbatim>\<open>2^(s-1)\<close>,
  and that is less than \<open>n\<close> because \<open>m\<close> has no more than 53 bits.
\<close>

lemma rounded_below:
  assumes m: "0 < m" "m < 2 ^ 53" "m < 2 ^ k" and n: "0 < n"
    and big: "53 < bitlength (m * n)"
  defines "s \<equiv> bitlength (m * n) - 53"
  defines "q \<equiv> (m * n) div 2 ^ s"
  defines "r \<equiv> (m * n) mod 2 ^ s"
  shows "q * 2 ^ s < n * 2 ^ k"
    and "2 ^ (s - 1) \<le> r \<Longrightarrow> (q + 1) * 2 ^ s < n * 2 ^ k"
proof -
  have M: "0 < m * n" using m(1) n by simp
  have s: "0 < s" "bitlength (m * n) - 1 = 52 + s"
    using big by (simp_all add: s_def)
  have split: "m * n = q * 2 ^ s + r"
    by (simp only: q_def r_def div_mult_mod_eq)
  have r0: "0 \<le> r" by (simp add: r_def)
  have "m * n \<le> (2 ^ k - 1) * n"
    using m(3) n by (intro mult_right_mono) simp_all
  then have top: "m * n + n \<le> n * 2 ^ k"
    by (simp add: algebra_simps)
  from bitlength_bounds [OF M] s(2) have "2 ^ (52 + s) \<le> m * n"
    by simp
  moreover have "m * n < 2 ^ 53 * n"
    using m(2) n by simp
  ultimately have "(2::int) ^ (52 + s) < 2 ^ 53 * n" by linarith
  moreover have "(2::int) ^ (52 + s) = 2 ^ 53 * 2 ^ (s - 1)"
    using s(1) by (cases s) (simp_all add: power_add)
  ultimately have small: "2 ^ (s - 1) < n" by simp
  have two: "(2::int) ^ s = 2 * 2 ^ (s - 1)"
    using s(1) by (cases s) simp_all
  show "q * 2 ^ s < n * 2 ^ k"
    using split r0 top n by linarith
  show "(q + 1) * 2 ^ s < n * 2 ^ k" if "2 ^ (s - 1) \<le> r"
  proof -
    have "(q + 1) * 2 ^ s = m * n - r + 2 ^ s"
      using split by (simp add: algebra_simps)
    also have "\<dots> \<le> m * n + 2 ^ (s - 1)"
      using that two by linarith
    also have "\<dots> < n * 2 ^ k"
      using small top by linarith
    finally show ?thesis .
  qed
qed

lemma Math_floor_less:
  assumes "0 \<le> q" and "q * 2 ^ s < n * 2 ^ k"
  shows "0 \<le> Math_floor (q, int s - int k) \<and> Math_floor (q, int s - int k) < n"
proof (cases "k \<le> s")
  case True
  then have e: "Math_floor (q, int s - int k) = q * 2 ^ (s - k)"
    by (simp add: Math_floor_def nat_diff_distrib')
  from True have "(2::int) ^ s = 2 ^ (s - k) * 2 ^ k"
    by (simp flip: power_add)
  with assms(2) have "(q * 2 ^ (s - k)) * 2 ^ k < n * 2 ^ k"
    by (simp add: mult.assoc)
  then have "q * 2 ^ (s - k) < n"
    by simp
  with assms(1) e show ?thesis by simp
next
  case False
  then have e: "Math_floor (q, int s - int k) = q div 2 ^ (k - s)"
    by (simp add: Math_floor_def nat_diff_distrib')
  from False have "(2::int) ^ k = 2 ^ (k - s) * 2 ^ s"
    by (simp flip: power_add)
  with assms(2) have "q * 2 ^ s < (n * 2 ^ (k - s)) * 2 ^ s"
    by (simp add: mult.assoc)
  then have below: "q < n * 2 ^ (k - s)"
    by simp
  have "q div 2 ^ (k - s) < n"
  proof (rule ccontr)
    assume "\<not> q div 2 ^ (k - s) < n"
    then have "n * 2 ^ (k - s) \<le> (q div 2 ^ (k - s)) * 2 ^ (k - s)"
      by (intro mult_right_mono) simp_all
    also have "\<dots> \<le> q"
    proof -
      have "(0::int) < 2 ^ (k - s)" by simp
      then have "0 \<le> q mod 2 ^ (k - s)" by (rule pos_mod_sign)
      with div_mult_mod_eq [of q "2 ^ (k - s)"] show ?thesis by linarith
    qed
    finally show False
      using below by simp
  qed
  moreover have "0 \<le> q div 2 ^ (k - s)"
    using assms(1) by (simp add: pos_imp_zdiv_nonneg_iff)
  ultimately show ?thesis using e by simp
qed

lemma Math_floor_multiply:
  assumes "random_value d" and "0 < n"
  shows "0 \<le> Math_floor (multiply d n) \<and> Math_floor (multiply d n) < n"
proof -
  obtain m e where d: "d = (m, e)" by (cases d)
  from assms(1) d have m: "0 \<le> m" "m < 2 ^ 53"
    and shape: "m = 0 \<or> (e < 0 \<and> m < 2 ^ nat (- e))"
    by (simp_all add: random_value_def)
  show ?thesis
  proof (cases "m = 0")
    case True
    then show ?thesis
      using assms(2) d
      by (simp add: multiply_def round53_def bitlength.simps [of 0] Math_floor_def)
  next
    case False
    with m(1) shape have pos: "0 < m" and e: "e < 0" and below: "m < 2 ^ nat (- e)"
      by simp_all
    define k where "k = nat (- e)"
    have ek: "e = - int k" using e by (simp add: k_def)
    show ?thesis
    proof (cases "bitlength (m * n) \<le> 53")
      case True
      have "m * n < n * 2 ^ k"
        using below assms(2) by (simp add: k_def mult.commute)
      then have "(m * n) * 2 ^ 0 < n * 2 ^ k" by simp
      moreover have "0 \<le> m * n" using m(1) assms(2) by simp
      ultimately have "0 \<le> Math_floor (m * n, int 0 - int k)
          \<and> Math_floor (m * n, int 0 - int k) < n"
        by (rule Math_floor_less [rotated])
      with True d ek show ?thesis
        by (simp add: multiply_def round53_def)
    next
      case False
      then have big: "53 < bitlength (m * n)" by simp
      define s where "s = bitlength (m * n) - 53"
      define q where "q = (m * n) div 2 ^ s"
      define r where "r = (m * n) mod 2 ^ s"
      define q' where "q' = (if r > 2 ^ (s - 1) \<or> (r = 2 ^ (s - 1) \<and> odd q) then q + 1 else q)"
      have res: "multiply d n = (q', int s - int k)"
        using False d ek
        by (simp add: multiply_def round53_def Let_def s_def q_def r_def q'_def)
      have q0: "0 \<le> q"
        using m(1) assms(2) by (simp add: q_def pos_imp_zdiv_nonneg_iff)
      from rounded_below [OF pos m(2) _ assms(2) big, of k] below
      have down: "q * 2 ^ s < n * 2 ^ k"
        and up: "2 ^ (s - 1) \<le> r \<Longrightarrow> (q + 1) * 2 ^ s < n * 2 ^ k"
        by (simp_all add: k_def s_def q_def r_def)
      have "q' * 2 ^ s < n * 2 ^ k"
        using down up by (auto simp: q'_def)
      moreover have "0 \<le> q'"
        using q0 by (simp add: q'_def)
      ultimately show ?thesis
        unfolding res by (rule Math_floor_less [rotated])
    qed
  qed
qed

lemma digit_of_draw:
  assumes "random_value d"
  shows "\<exists>c. string_of_int (Math_floor (multiply d 10)) = [c] \<and> decimal_digit c"
proof -
  define v where "v = Math_floor (multiply d 10)"
  from Math_floor_multiply [OF assms, of 10] have lo: "0 \<le> v" and hi: "v < 10"
    by (simp_all add: v_def)
  then have small: "nat v < 10"
    by linarith
  have shown: "string_of_int v = [''0123456789'' ! nat v]"
    using lo small
    by (simp add: string_of_int_def string_of_nat.simps [of "nat v"])
  have "''0123456789'' ! nat v \<in> set ''0123456789''"
    using small by (intro nth_mem) simp
  with shown show ?thesis
    unfolding v_def by (simp only: decimal_digit_def) blast
qed

lemma length_of_draw:
  assumes "random_value d"
  shows "nat (Math_floor (multiply d 3) + 6) \<in> {6, 7, 8}"
proof -
  define v where "v = Math_floor (multiply d 3)"
  from Math_floor_multiply [OF assms, of 3] have "0 \<le> v" and "v < 3"
    by (simp_all add: v_def)
  then have "v = 0 \<or> v = 1 \<or> v = 2"
    by linarith
  then have "nat (v + 6) \<in> {6, 7, 8}"
    by (elim disjE) (simp_all only: insert_iff, simp_all)
  then show ?thesis
    by (simp only: v_def)
qed

lemma generateDigits_digits:
  assumes "generateDigits n rs acc = Some (i, rs')"
    and "\<forall>d \<in> set rs. random_value d"
  shows "length i = length acc + n \<and> (\<forall>c \<in> set i. c \<in> set acc \<or> decimal_digit c)
         \<and> set rs' \<subseteq> set rs"
  using assms
proof (induction n rs acc rule: generateDigits.induct)
  case (1 rs acc)
  then show ?case by auto
next
  case (2 n acc)
  then show ?case by simp
next
  case (3 n r rs acc)
  from "3.prems"(2) have r: "random_value r" and rest: "\<forall>d \<in> set rs. random_value d"
    by simp_all
  from digit_of_draw [OF r] obtain c where
    c: "string_of_int (Math_floor (multiply r 10)) = [c]" "decimal_digit c"
    by blast
  from "3.prems"(1)
  have "generateDigits n rs (acc @ string_of_int (Math_floor (multiply r 10))) = Some (i, rs')"
    by simp
  from "3.IH" [OF this rest] c show ?case
    by auto
qed

lemma generateDigits_enough: "n \<le> length rs \<Longrightarrow> generateDigits n rs acc \<noteq> None"
  by (induction n rs acc rule: generateDigits.induct) simp_all

lemma generateSlotId_digits:
  assumes "generateSlotId rs = Some (i, rs')"
    and "\<forall>d \<in> set rs. random_value d"
  shows "length i \<in> {6, 7, 8} \<and> (\<forall>c \<in> set i. decimal_digit c) \<and> set rs' \<subseteq> set rs"
proof (cases rs)
  case Nil
  with assms(1) show ?thesis by simp
next
  case (Cons r rest)
  from assms(2) Cons have r: "random_value r" and rest: "\<forall>d \<in> set rest. random_value d"
    by simp_all
  note len = length_of_draw [OF r]
  from assms(1) Cons
  have "generateDigits (nat (Math_floor (multiply r 3) + 6)) rest [] = Some (i, rs')"
    by simp
  from generateDigits_digits [OF this rest] len Cons show ?thesis
    by auto
qed

lemma generateSlotId_enough:
  assumes "9 \<le> length rs" and "\<forall>d \<in> set rs. random_value d"
  shows "generateSlotId rs \<noteq> None"
proof (cases rs)
  case Nil
  with assms(1) show ?thesis by simp
next
  case (Cons r rest)
  from assms(2) Cons have "random_value r" by simp
  from length_of_draw [OF this] have "nat (Math_floor (multiply r 3) + 6) \<le> 8"
    by auto
  with assms(1) Cons have "nat (Math_floor (multiply r 3) + 6) \<le> length rest"
    by simp
  then show ?thesis
    using Cons by (simp add: generateDigits_enough)
qed

lemma whileTaken_digits:
  assumes "whileTaken st slotId rs = Some (j, rs')"
    and "\<forall>d \<in> set rs. random_value d"
    and "length slotId \<in> {6, 7, 8} \<and> (\<forall>c \<in> set slotId. decimal_digit c)"
  shows "length j \<in> {6, 7, 8} \<and> (\<forall>c \<in> set j. decimal_digit c)"
  using assms
proof (induction st slotId rs rule: whileTaken.induct)
  case (1 st slotId rs)
  show ?case
  proof (cases "getSlot st slotId \<noteq> None")
    case taken: True
    show ?thesis
    proof (cases "generateSlotId rs")
      case None
      with taken "1.prems"(1) show ?thesis
        by (simp add: whileTaken.simps [of st slotId rs])
    next
      case (Some p)
      obtain slotId' rs1 where p: "p = (slotId', rs1)" by (cases p)
      from taken Some p "1.prems"(1) have loop: "whileTaken st slotId' rs1 = Some (j, rs')"
        by (simp add: whileTaken.simps [of st slotId rs])
      from Some p have gen: "generateSlotId rs = Some (slotId', rs1)" by simp
      from generateSlotId_digits [OF gen "1.prems"(2)]
      have good: "length slotId' \<in> {6, 7, 8} \<and> (\<forall>c \<in> set slotId'. decimal_digit c)"
        and sub: "set rs1 \<subseteq> set rs"
        by simp_all
      from sub "1.prems"(2) have range: "\<forall>d \<in> set rs1. random_value d"
        by blast
      from "1.IH" [OF taken Some p [symmetric] loop range good] show ?thesis .
    qed
  next
    case False
    with "1.prems"(1) have "j = slotId"
      by (simp add: whileTaken.simps [of st slotId rs])
    with "1.prems"(3) show ?thesis by simp
  qed
qed

lemma createSlot_never_faults:
  assumes "createSlot hash st password rs salt now = Some (r, st')"
  shows "\<exists>slot. r = Inr slot"
proof -
  from assms obtain slotId0 rs0 where gen: "generateSlotId rs = Some (slotId0, rs0)"
    by (auto simp: createSlot_def split: option.splits)
  from assms gen obtain slotId rs1 where loop: "whileTaken st slotId0 rs0 = Some (slotId, rs1)"
    by (auto simp: createSlot_def split: option.splits)
  have "getSlot st slotId = None"
    using loop by (rule whileTaken_free)
  with assms gen loop show ?thesis
    by (auto simp: createSlot_def insertSlot_def Let_def)
qed

lemma createSlot_retry:
  assumes "generateSlotId rs = Some (slotId0, rs0)" and "getSlot st slotId0 \<noteq> None"
  shows "createSlot hash st password rs salt now = createSlot hash st password rs0 salt now"
proof -
  have "whileTaken st slotId0 rs0
          = (case generateSlotId rs0 of
               None \<Rightarrow> None
             | Some (slotId', rs') \<Rightarrow> whileTaken st slotId' rs')"
    using assms(2) by (simp add: whileTaken.simps [of st slotId0 rs0])
  then show ?thesis
    using assms(1) by (simp add: createSlot_def split: option.splits)
qed

lemma createSlot_first_free:
  assumes "generateSlotId rs = Some (slotId0, rs0)" and "getSlot st slotId0 = None"
  shows "createSlot hash st password rs salt now
           = Some (Inr \<lparr>slot_id = slotId0, passwordHash = hash salt password,
                         createdAt = now, expiresAt = now + 24 * 60 * 60 * 1000,
                         failedAttempts = 0\<rparr>,
                   st\<lparr>slots := slots st
                          @ [\<lparr>slot_id = slotId0, passwordHash = hash salt password,
                               createdAt = now, expiresAt = now + 24 * 60 * 60 * 1000,
                               failedAttempts = 0\<rparr>]\<rparr>)"
proof -
  have "whileTaken st slotId0 rs0 = Some (slotId0, rs0)"
    using assms(2) by (simp add: whileTaken.simps [of st slotId0 rs0])
  then show ?thesis
    using assms by (simp add: createSlot_def insertSlot_def Let_def)
qed

text \<open>
  C8. With every draw a value \<^verbatim>\<open>Math.random()\<close> can return (a double from 0, included,
  to 1, excluded), \<open>createSlot\<close> ends without a fault whenever it ends, and the id of
  the slot it returns has 6, 7 or 8 characters, all decimal digits (a leading zero can
  occur); no row of \<^verbatim>\<open>slots\<close> has this id at the moment the slot is inserted. The
  generator is retried on collision: when the first id drawn is taken, \<open>createSlot\<close>
  does what it does on the draws that are left, and when it is free it is the new
  slot's id. Nine draws are enough for one id.
\<close>

theorem created_id_decimal_and_fresh:
  assumes "\<forall>d \<in> set rs. random_value d"
  shows "(createSlot hash st password rs salt now = Some (r, st') \<longrightarrow>
            (\<exists>slot. r = Inr slot
               \<and> length (slot_id slot) \<in> {6, 7, 8}
               \<and> (\<forall>c \<in> set (slot_id slot). decimal_digit c)
               \<and> (\<forall>s \<in> set (slots st). slot_id s \<noteq> slot_id slot)
               \<and> getSlot st' (slot_id slot) = Some slot))
       \<and> (generateSlotId rs = Some (slotId0, rs0) \<and> getSlot st slotId0 \<noteq> None \<longrightarrow>
            createSlot hash st password rs salt now
              = createSlot hash st password rs0 salt now)
       \<and> (generateSlotId rs = Some (slotId0, rs0) \<and> getSlot st slotId0 = None \<longrightarrow>
            createSlot hash st password rs salt now
              = Some (Inr \<lparr>slot_id = slotId0, passwordHash = hash salt password,
                            createdAt = now, expiresAt = now + 24 * 60 * 60 * 1000,
                            failedAttempts = 0\<rparr>,
                      st\<lparr>slots := slots st
                             @ [\<lparr>slot_id = slotId0, passwordHash = hash salt password,
                                  createdAt = now, expiresAt = now + 24 * 60 * 60 * 1000,
                                  failedAttempts = 0\<rparr>]\<rparr>))
       \<and> (9 \<le> length rs \<longrightarrow> generateSlotId rs \<noteq> None)"
proof -
  have result: "\<exists>slot. r = Inr slot
               \<and> length (slot_id slot) \<in> {6, 7, 8}
               \<and> (\<forall>c \<in> set (slot_id slot). decimal_digit c)
               \<and> (\<forall>s \<in> set (slots st). slot_id s \<noteq> slot_id slot)
               \<and> getSlot st' (slot_id slot) = Some slot"
    if run: "createSlot hash st password rs salt now = Some (r, st')"
  proof -
    from createSlot_never_faults [OF run] obtain slot where r: "r = Inr slot"
      by blast
    with run have made: "createSlot hash st password rs salt now = Some (Inr slot, st')"
      by simp
    from createSlot_Inr(4) [OF made] obtain slotId0 rs0 rs1 where
      gen: "generateSlotId rs = Some (slotId0, rs0)" and
      loop: "whileTaken st slotId0 rs0 = Some (slot_id slot, rs1)"
      by blast
    from generateSlotId_digits [OF gen assms]
    have good: "length slotId0 \<in> {6, 7, 8} \<and> (\<forall>c \<in> set slotId0. decimal_digit c)"
      and sub: "set rs0 \<subseteq> set rs"
      by simp_all
    from sub assms have range: "\<forall>d \<in> set rs0. random_value d"
      by blast
    from whileTaken_digits [OF loop range good]
    have shape: "length (slot_id slot) \<in> {6, 7, 8}"
      "\<forall>c \<in> set (slot_id slot). decimal_digit c"
      by auto
    have "getSlot st (slot_id slot) = None"
      by (rule createSlot_Inr(2) [OF made])
    then have fresh: "\<forall>s \<in> set (slots st). slot_id s \<noteq> slot_id slot"
      by (auto simp: getSlot_def find_None_iff)
    have stored: "getSlot st' (slot_id slot) = Some slot"
      using createSlot_Inr(2,3) [OF made] by (simp add: getSlot_append)
    from r shape fresh stored show ?thesis by blast
  qed
  have enough: "9 \<le> length rs \<longrightarrow> generateSlotId rs \<noteq> None"
    using assms by (simp add: generateSlotId_enough)
  from result enough
    createSlot_retry [of rs slotId0 rs0 st hash password salt now]
    createSlot_first_free [of rs slotId0 rs0 st hash password salt now]
  show ?thesis
    by blast
qed

theorem created_id_decimal_and_fresh_witness:
  "list_all random_value demo_draws
   \<and> 9 \<le> length demo_draws
   \<and> generateSlotId demo_draws = Some (''123456'', demo_draws_rest)
   \<and> getSlot demo_state ''123456'' = Some demo_slot
   \<and> generateSlotId demo_draws_rest = Some (''70000009'', [])
   \<and> getSlot demo_state ''70000009'' = None
   \<and> createSlot demo_hash demo_state ''wxyz'' demo_draws ''salt'' 7000
        = createSlot demo_hash demo_state ''wxyz'' demo_draws_rest ''salt'' 7000
   \<and> createSlot demo_hash demo_state ''wxyz'' demo_draws ''salt'' 7000
        = Some (Inr demo_created, demo_state\<lparr>slots := [demo_slot, demo_created]\<rparr>)
   \<and> slot_id demo_created = ''70000009''
   \<and> length (slot_id demo_created) \<in> {6, 7, 8}
   \<and> list_all decimal_digit (slot_id demo_created)
   \<and> list_all (\<lambda>s. slot_id s \<noteq> slot_id demo_created) (slots demo_state)"
proof -
  have range: "\<forall>d \<in> set demo_draws. random_value d"
    by (simp add: demo_draws_def demo_draws_rest_def random_value_def)
  have many: "9 \<le> length demo_draws"
    by (simp add: demo_draws_def demo_draws_rest_def)
  have found: "getSlot demo_state ''123456'' = Some demo_slot"
    by (simp add: getSlot_def demo_state_def demo_slot_def)
  then have taken: "getSlot demo_state ''123456'' \<noteq> None"
    by simp
  have free: "getSlot demo_state ''70000009'' = None"
    by (simp add: getSlot_def demo_state_def demo_slot_def)
  have key: "slot_id demo_created = ''70000009''"
    by (simp add: demo_created_def)
  note inst = created_id_decimal_and_fresh
    [OF range, of demo_hash demo_state "''wxyz''" "''salt''" 7000 "Inr demo_created"
       "demo_state\<lparr>slots := [demo_slot, demo_created]\<rparr>" "''123456''" demo_draws_rest]
  from inst demo_generate_first taken
  have retried: "createSlot demo_hash demo_state ''wxyz'' demo_draws ''salt'' 7000
        = createSlot demo_hash demo_state ''wxyz'' demo_draws_rest ''salt'' 7000"
    by blast
  from inst demo_createSlot
  have shape: "length (slot_id demo_created) \<in> {6, 7, 8}"
    "\<forall>c \<in> set (slot_id demo_created). decimal_digit c"
    "\<forall>s \<in> set (slots demo_state). slot_id s \<noteq> slot_id demo_created"
    by auto
  from range many demo_generate_first found demo_generate_second free retried
    demo_createSlot key shape
  show ?thesis
    unfolding list_all_iff by blast
qed

theorem slot_fields_fixed_counter_grows_witness:
  "createSlot demo_hash demo_state ''wxyz'' demo_draws ''salt'' 7000
     = Some (Inr demo_created, demo_state\<lparr>slots := [demo_slot, demo_created]\<rparr>)
   \<and> expiresAt demo_created = createdAt demo_created + 24 * 60 * 60 * 1000
   \<and> failedAttempts demo_created = 0
   \<and> step demo_hash demo_verify demo_state (AccessReq ''123456'' ''nope'' 5000)
        = Some (demo_state_failed 1)
   \<and> getSlot demo_state ''123456'' = Some demo_slot
   \<and> getSlot (demo_state_failed 1) ''123456'' = Some (demo_slot\<lparr>failedAttempts := 1\<rparr>)
   \<and> passwordHash (demo_slot\<lparr>failedAttempts := 1\<rparr>) = passwordHash demo_slot
   \<and> createdAt (demo_slot\<lparr>failedAttempts := 1\<rparr>) = createdAt demo_slot
   \<and> expiresAt (demo_slot\<lparr>failedAttempts := 1\<rparr>) = expiresAt demo_slot
   \<and> failedAttempts (demo_slot\<lparr>failedAttempts := 1\<rparr>) = failedAttempts demo_slot + 1"
proof -
  have found: "getSlot demo_state ''123456'' = Some demo_slot"
    by (simp add: getSlot_def demo_state_def demo_slot_def)
  have run: "step demo_hash demo_verify demo_state (AccessReq ''123456'' ''nope'' 5000)
        = Some (demo_state_failed 1)"
    by code_simp
  have zero: "failedAttempts demo_slot = 0"
    by (simp add: demo_slot_def)
  from slot_fields_fixed_counter_grows
    [of demo_hash demo_state "''wxyz''" demo_draws "''salt''" 7000 demo_created
        "demo_state\<lparr>slots := [demo_slot, demo_created]\<rparr>" demo_verify
        "AccessReq ''123456'' ''nope'' 5000" "demo_state_failed 1" "''123456''" demo_slot
        "demo_slot\<lparr>failedAttempts := 1\<rparr>"]
    demo_createSlot run found demo_failed_found [of 1]
  show ?thesis
    by (simp add: zero)
qed

end
